theory Spec2Isabelle
  imports Complex_Main "HOL-Library.AList"
begin

section \<open>Element tree model (server/services/uiExtractor.ts)\<close>

text \<open>
  JavaScript strings are modelled as \<^typ>\<open>string\<close>, one list element per code unit.
  A property that may be \<^verbatim>\<open>undefined\<close> is an \<^typ>\<open>'a option\<close>, with \<^term>\<open>None\<close> for
  \<^verbatim>\<open>undefined\<close>.
\<close>

subsection \<open>Numbers\<close>

text \<open>
  The numbers of \<^verbatim>\<open>parseBounds\<close> are IEEE 754 double-precision values. They are
  made from strings of decimal digits by \<^verbatim>\<open>Number\<close>, \<^verbatim>\<open>+\<close>, \<^verbatim>\<open>-\<close>, \<^verbatim>\<open>/ 2\<close> and
  \<^verbatim>\<open>Math.floor\<close>, so each value held in a record is an integer that is a double, an
  infinity, or \<^verbatim>\<open>NaN\<close>.
\<close>

datatype number = Finite int | PosInfinity | NegInfinity | NaN









subsection \<open>Bounds\<close>

record Bounds =
  left :: number
  top_y :: number
  right :: number
  bottom :: number
  centerX :: number
  centerY :: number
  width :: number
  height :: number

definition zeroBounds :: Bounds where
  "zeroBounds = \<lparr>left = Finite 0, top_y = Finite 0, right = Finite 0, bottom = Finite 0,
                  centerX = Finite 0, centerY = Finite 0, width = Finite 0, height = Finite 0\<rparr>"

subsection \<open>The pattern \<^verbatim>\<open>/\[(\d+),(\d+)\]\[(\d+),(\d+)\]/\<close>\<close>









subsection \<open>parseBounds\<close>


subsection \<open>processNode\<close>



datatype UIElement = UIElement
  (el_type: "string option")
  (el_id: "string option")
  (el_text: "string option")
  (el_contentDesc: "string option")
  (el_clickable: bool)
  (el_bounds: Bounds)
  (el_depth: nat)
  (el_children: "UIElement list")




subsection \<open>findClickableElements\<close>

record FindClickableOptions =
  opt_text :: "string option"
  opt_contentDesc :: "string option"
  opt_resourceId :: "string option"
  opt_className :: "string option"

text \<open>The options object \<^verbatim>\<open>{}\<close>, which is also the default of the parameter.\<close>

definition no_options :: FindClickableOptions where
  "no_options = \<lparr>opt_text = None, opt_contentDesc = None,
                  opt_resourceId = None, opt_className = None\<rparr>"

text \<open>Truthiness of a value that is a string or \<^verbatim>\<open>undefined\<close>.\<close>

definition truthy_str :: "string option \<Rightarrow> bool" where
  "truthy_str s = (case s of None \<Rightarrow> False | Some v \<Rightarrow> v \<noteq> [])"

text \<open>The four tests of \<^verbatim>\<open>traverse\<close>, each of which can only clear the flag.\<close>

definition element_matches :: "FindClickableOptions \<Rightarrow> UIElement \<Rightarrow> bool" where
  "element_matches options element =
     (let matches = True;
          matches = (if truthy_str (opt_text options)
                        \<and> el_text element \<noteq> opt_text options
                     then False else matches);
          matches = (if truthy_str (opt_contentDesc options)
                        \<and> el_contentDesc element \<noteq> opt_contentDesc options
                     then False else matches);
          matches = (if truthy_str (opt_resourceId options)
                        \<and> el_id element \<noteq> opt_resourceId options
                     then False else matches);
          matches = (if truthy_str (opt_className options)
                        \<and> el_type element \<noteq> opt_className options
                     then False else matches)
      in matches)"

text \<open>
  \<^verbatim>\<open>traverse\<close> pushes onto the shared array \<^verbatim>\<open>results\<close>; the model returns the elements
  pushed, in the order of the pushes.
\<close>

fun traverse :: "FindClickableOptions \<Rightarrow> UIElement \<Rightarrow> UIElement list" where
  "traverse options (UIElement ty i t cd cl b d ch) =
     (if element_matches options (UIElement ty i t cd cl b d ch) \<and> cl
      then [UIElement ty i t cd cl b d ch] else [])
     @ concat (map (traverse options) ch)"

definition findClickableElements ::
    "UIElement option \<Rightarrow> FindClickableOptions \<Rightarrow> UIElement list" where
  "findClickableElements elements options =
     (case elements of None \<Rightarrow> [] | Some element \<Rightarrow> traverse options element)"



section \<open>JavaScript values\<close>

text \<open>
  The values that \<^verbatim>\<open>JSON.parse\<close> builds, and \<^verbatim>\<open>undefined\<close>. An object is the list of
  its own properties in insertion order; reading a property takes the first entry of
  that name. Numbers are never computed with by the code modelled here, only stored,
  compared with \<^verbatim>\<open>undefined\<close> and tested for truthiness.
\<close>

datatype jsval =
    JUndefined
  | JNull
  | JBool bool
  | JNum real
  | JStr string
  | JArr "jsval list"
  | JObj "(string \<times> jsval) list"

type_synonym jobj = "(string \<times> jsval) list"

fun truthy :: "jsval \<Rightarrow> bool" where
  "truthy JUndefined = False"
| "truthy JNull = False"
| "truthy (JBool b) = b"
| "truthy (JNum n) = (n \<noteq> 0)"
| "truthy (JStr s) = (s \<noteq> [])"
| "truthy (JArr xs) = True"
| "truthy (JObj kv) = True"

text \<open>\<^verbatim>\<open>obj.k\<close>, \<^verbatim>\<open>obj.k = v\<close> and \<^verbatim>\<open>delete obj.k\<close> on an object.\<close>

definition get :: "jobj \<Rightarrow> string \<Rightarrow> jsval" where
  "get obj k = (case map_of obj k of None \<Rightarrow> JUndefined | Some v \<Rightarrow> v)"

definition put :: "string \<Rightarrow> jsval \<Rightarrow> jobj \<Rightarrow> jobj" where
  "put k v obj = AList.update k v obj"

definition del :: "string \<Rightarrow> jobj \<Rightarrow> jobj" where
  "del k obj = AList.delete k obj"

text \<open>
  \<^verbatim>\<open>v.k\<close> on any value, for the property names the code reads (none of them is defined
  on a prototype): only an object has them.
\<close>

fun prop_of :: "jsval \<Rightarrow> string \<Rightarrow> jsval" where
  "prop_of (JObj kv) k = get kv k"
| "prop_of _ k = JUndefined"

text \<open>\<^verbatim>\<open>xs[i]\<close>: \<^verbatim>\<open>undefined\<close> beyond the end.\<close>

definition at_index :: "jsval list \<Rightarrow> nat \<Rightarrow> jsval" where
  "at_index xs i = (if i < length xs then xs ! i else JUndefined)"

text \<open>Decimal digits of an array index, the property names of array and string entries.\<close>

fun show_nat :: "nat \<Rightarrow> string" where
  "show_nat n =
     (if n < 10 then [char_of (48 + n)]
      else show_nat (n div 10) @ [char_of (48 + n mod 10)])"

text \<open>
  The object spread \<^verbatim>\<open>{ ...v }\<close>: the own enumerable properties of an object, the
  indexed entries of an array or of a string, nothing for the other values.
\<close>

fun spread :: "jsval \<Rightarrow> jobj" where
  "spread (JObj kv) = kv"
| "spread (JArr xs) = zip (map show_nat [0..<length xs]) xs"
| "spread (JStr s) = zip (map show_nat [0..<length s]) (map (\<lambda>c. JStr [c]) s)"
| "spread _ = []"

section \<open>Response normalizer (services/aiService.ts)\<close>

subsection \<open>normalizeCommand\<close>

definition is_pair :: "jsval \<Rightarrow> bool" where
  "is_pair v = (case v of JArr xs \<Rightarrow> length xs = 2 | _ \<Rightarrow> False)"

definition isArray :: "jsval \<Rightarrow> bool" where
  "isArray v = (case v of JArr xs \<Rightarrow> True | _ \<Rightarrow> False)"

definition elems :: "jsval \<Rightarrow> jsval list" where
  "elems v = (case v of JArr xs \<Rightarrow> xs | _ \<Rightarrow> [])"

text \<open>The first repair: \<^verbatim>\<open>action\<close> used in place of \<^verbatim>\<open>type\<close>.\<close>

definition repair_action :: "jobj \<Rightarrow> jobj" where
  "repair_action c =
     (if truthy (get c ''action'') \<and> \<not> truthy (get c ''type'')
      then del ''action'' (put ''type'' (get c ''action'') c)
      else c)"

text \<open>The second repair: a click, or a tap that carries a coordinate pair.\<close>

definition repair_tap :: "jobj \<Rightarrow> jobj" where
  "repair_tap c =
     (if get c ''type'' = JStr ''click''
         \<or> (get c ''type'' = JStr ''tap'' \<and> is_pair (get c ''coordinate''))
      then let c1 = put ''type'' (JStr ''tap'') c in
           if is_pair (get c1 ''coordinate'')
           then del ''coordinate''
                  (put ''y'' (at_index (elems (get c1 ''coordinate'')) 1)
                  (put ''x'' (at_index (elems (get c1 ''coordinate'')) 0) c1))
           else c1
      else c)"

text \<open>The third repair: a swipe that carries two coordinate arrays, or one of length four.\<close>

definition repair_swipe :: "jobj \<Rightarrow> jobj" where
  "repair_swipe c =
     (if get c ''type'' = JStr ''swipe''
      then if isArray (get c ''coordinate'') \<and> isArray (get c ''coordinate2'')
           then del ''coordinate2'' (del ''coordinate''
                  (put ''endY'' (at_index (elems (get c ''coordinate2'')) 1)
                  (put ''endX'' (at_index (elems (get c ''coordinate2'')) 0)
                  (put ''startY'' (at_index (elems (get c ''coordinate'')) 1)
                  (put ''startX'' (at_index (elems (get c ''coordinate'')) 0) c)))))
           else if isArray (get c ''coordinate'') \<and> length (elems (get c ''coordinate'')) = 4
           then del ''coordinate''
                  (put ''endY'' (at_index (elems (get c ''coordinate'')) 3)
                  (put ''endX'' (at_index (elems (get c ''coordinate'')) 2)
                  (put ''startY'' (at_index (elems (get c ''coordinate'')) 1)
                  (put ''startX'' (at_index (elems (get c ''coordinate'')) 0) c))))
           else c
      else c)"

definition normalizeCommand :: "jsval \<Rightarrow> jobj" where
  "normalizeCommand cmd = repair_swipe (repair_tap (repair_action (spread cmd)))"

subsection \<open>parseModelResponse\<close>

text \<open>
  Exceptions are values. The messages of the source are Chinese text; the model names
  each of them by a constructor or by an ASCII gloss. The only exception that the
  statements modelled below can raise themselves is a \<^verbatim>\<open>TypeError\<close>.
\<close>

datatype exn = TypeError

record AIResponse =
  thinking :: jsval
  commands :: "jobj list"
  result :: jsval
  isTaskComplete :: jsval
  error :: "string option"

text \<open>Glosses of the three placeholder texts for \<^verbatim>\<open>thinking\<close>.\<close>

definition no_thinking :: string where
  "no_thinking = ''(no analysis)''"

definition unparsable_thinking :: string where
  "unparsable_thinking = ''(cannot parse the analysis)''"

definition parse_failed :: string where
  "parse_failed = ''(response parsing failed)''"

text \<open>
  The callback that adds the completion marks: a mark is written only where the command
  has none (\<^verbatim>\<open>=== undefined\<close>).
\<close>

definition default_flags :: "jsval \<Rightarrow> jobj \<Rightarrow> jobj" where
  "default_flags responseComplete cmd =
     (let cmd1 = (if get cmd ''isTaskComplete'' = JUndefined
                  then put ''isTaskComplete''
                         (if truthy responseComplete then responseComplete else JBool False) cmd
                  else cmd);
          cmd2 = (if get cmd1 ''isFinalCommand'' = JUndefined
                  then put ''isFinalCommand'' (JBool False) cmd1
                  else cmd1)
      in cmd2)"

text \<open>\<^verbatim>\<open>commands[commands.length - 1].isFinalCommand = true\<close>, when there is a command.\<close>

definition mark_last :: "jobj list \<Rightarrow> jobj list" where
  "mark_last cmds =
     (if length cmds > 0
      then cmds[length cmds - 1 := put ''isFinalCommand'' (JBool True) (cmds ! (length cmds - 1))]
      else cmds)"

text \<open>
  The statements that follow \<^verbatim>\<open>JSON.parse\<close>, for a parsed object with the own
  properties \<open>p\<close>. \<^verbatim>\<open>commands.map\<close> exists only on an array.
\<close>

definition clean_response :: "jobj \<Rightarrow> exn + AIResponse" where
  "clean_response p =
     (let thinking1 = (if \<not> truthy (get p ''thinking'') then JStr no_thinking
                       else get p ''thinking'');
          commands1 = (if \<not> truthy (get p ''commands'') then JArr [] else get p ''commands'')
      in case commands1 of
           JArr xs \<Rightarrow>
             Inr \<lparr>thinking = thinking1,
                  commands = mark_last (map (default_flags (get p ''isTaskComplete''))
                                         (map normalizeCommand xs)),
                  result = get p ''result'',
                  isTaskComplete = get p ''isTaskComplete'',
                  error = None\<rparr>
         | _ \<Rightarrow> Inl TypeError)"

text \<open>
  The same statements for any parsed value. An array has none of the properties read;
  \<^verbatim>\<open>null\<close> has no properties at all, and a primitive refuses the assignment of
  \<^verbatim>\<open>thinking\<close> (the module is strict code).
\<close>

definition from_parsed :: "jsval \<Rightarrow> exn + AIResponse" where
  "from_parsed parsedResponse =
     (case parsedResponse of
        JObj p \<Rightarrow> clean_response p
      | JArr xs \<Rightarrow> clean_response []
      | _ \<Rightarrow> Inl TypeError)"

text \<open>
  What the two library calls on the text of the reply deliver, which the model takes
  as given: the outcome of the JSON extraction (no match of either pattern, a match
  that \<^verbatim>\<open>JSON.parse\<close> rejects, or the parsed value), and the trimmed first groups of the
  two fallback patterns, if they match.
\<close>

datatype json_extract = NoMatch | ParseThrows | Parsed jsval

record content_view =
  jsonPart :: json_extract
  commandsMatch :: "string option"
  thinkingMatch :: "string option"

text \<open>
  A reply of the API: either one whose \<^verbatim>\<open>choices[0].message.content\<close> is a string, or
  one that makes \<^verbatim>\<open>parseModelResponse\<close> reach its outer handler, with the message of
  the exception caught there.
\<close>

datatype api_response = Unusable string | Content content_view

definition fallback_response :: "content_view \<Rightarrow> AIResponse" where
  "fallback_response v =
     \<lparr>thinking = (case thinkingMatch v of Some t \<Rightarrow> JStr t | None \<Rightarrow> JStr unparsable_thinking),
      commands = (case commandsMatch v of
                    Some c \<Rightarrow> [[(''type'', JStr ''text''), (''text'', JStr c)]]
                  | None \<Rightarrow> []),
      result = JUndefined,
      isTaskComplete = JUndefined,
      error = None\<rparr>"

definition parseModelResponse :: "api_response \<Rightarrow> AIResponse" where
  "parseModelResponse response =
     (case response of
        Unusable msg \<Rightarrow>
          \<lparr>thinking = JStr parse_failed, commands = [], result = JUndefined,
           isTaskComplete = JUndefined, error = Some msg\<rparr>
      | Content v \<Rightarrow>
          (case jsonPart v of
             Parsed parsedResponse \<Rightarrow>
               (case from_parsed parsedResponse of
                  Inr cleanResponse \<Rightarrow> cleanResponse
                | Inl jsonError \<Rightarrow> fallback_response v)
           | _ \<Rightarrow> fallback_response v))"

text \<open>The number of commands of a list that are marked final.\<close>

definition final_count :: "jobj list \<Rightarrow> nat" where
  "final_count cmds = length (filter (\<lambda>c. get c ''isFinalCommand'' = JBool True) cmds)"

subsection \<open>Session context\<close>

definition MAX_CONTEXT_ITEMS :: nat where
  "MAX_CONTEXT_ITEMS = 5"

text \<open>
  A history item keeps of a screenshot and of a layout capture the time stamp only
  (\<^term>\<open>None\<close> when the capture is absent).
\<close>

record SessionHistoryItem =
  item_instruction :: string
  item_screenshot :: "jsval option"
  item_uiElements :: "jsval option"
  item_parsedResponse :: AIResponse

record SessionContext =
  history :: "SessionHistoryItem list option"
  lastOperation :: "(string \<times> string) option"

text \<open>The object \<^verbatim>\<open>{}\<close> as a session context.\<close>

definition empty_context :: SessionContext where
  "empty_context = \<lparr>history = None, lastOperation = None\<rparr>"

text \<open>\<^verbatim>\<open>xs.slice(-n)\<close> for a positive \<open>n\<close>: the last \<open>n\<close> entries.\<close>

definition slice_last :: "nat \<Rightarrow> 'a list \<Rightarrow> 'a list" where
  "slice_last n xs = drop (length xs - n) xs"

definition history_of :: "SessionContext \<Rightarrow> SessionHistoryItem list" where
  "history_of ctx = (case history ctx of None \<Rightarrow> [] | Some h \<Rightarrow> h)"

text \<open>
  The condensed response. \<^verbatim>\<open>thinking.substring(0, 150)\<close> exists only on a string; on
  any other value the call raises a \<^verbatim>\<open>TypeError\<close>.
\<close>

definition simplifiedResponse :: "AIResponse \<Rightarrow> exn + AIResponse" where
  "simplifiedResponse r =
     (case thinking r of
        JStr s \<Rightarrow>
          Inr \<lparr>thinking = JStr (take 150 s),
               commands = map (\<lambda>cmd. [(''type'', get cmd ''type''),
                                       (''isTaskComplete'', get cmd ''isTaskComplete'')])
                              (commands r),
               result = result r,
               isTaskComplete = isTaskComplete r,
               error = None\<rparr>
      | _ \<Rightarrow> Inl TypeError)"

text \<open>
  \<^verbatim>\<open>updateSessionContext\<close> mutates the context it is given; the model returns the
  context as it is left, together with the exception if one was raised. \<open>now\<close> is the
  time stamp read from the clock.
\<close>

definition updateSessionContext ::
    "SessionContext \<Rightarrow> SessionHistoryItem \<Rightarrow> string \<Rightarrow> exn option \<times> SessionContext" where
  "updateSessionContext sessionContext newItem now =
     (let ctx1 = (if history sessionContext = None
                  then sessionContext\<lparr>history := Some []\<rparr> else sessionContext)
      in case simplifiedResponse (item_parsedResponse newItem) of
           Inl e \<Rightarrow> (Some e, ctx1)
         | Inr simplified \<Rightarrow>
             let simplifiedItem = \<lparr>item_instruction = item_instruction newItem,
                                   item_screenshot = item_screenshot newItem,
                                   item_uiElements = item_uiElements newItem,
                                   item_parsedResponse = simplified\<rparr>;
                 pushed = history_of ctx1 @ [simplifiedItem];
                 limited = (if length pushed > MAX_CONTEXT_ITEMS
                            then slice_last MAX_CONTEXT_ITEMS pushed else pushed)
             in (None, ctx1\<lparr>history := Some limited,
                            lastOperation := Some (item_instruction newItem, now)\<rparr>))"

section \<open>What the server does to the outside\<close>

text \<open>
  The device, the model endpoint and the client are outside the code. Every call to
  them is recorded, in order, in a trace of events; what they answer is given by an
  environment, which may let an answer depend on everything that happened before.
  Delays (the \<^verbatim>\<open>wait\<close> command, the pause after a command) take time and do nothing
  else; they leave no event.
\<close>

text \<open>The four input calls of \<^verbatim>\<open>androidConnection\<close>, with the arguments as passed.\<close>

datatype transport_call =
    Tap jsval jsval
  | Swipe jsval jsval jsval jsval jsval
  | InputText jsval
  | PressKey jsval

text \<open>
  The prompt built by \<^verbatim>\<open>handleAIInstruction\<close>: which of the three builders ran, and the
  part of the session history the builder read (the last three items for an
  instruction, the last one for an error correction, none for a continuation).
\<close>

datatype prompt =
    InstructionPrompt string "SessionHistoryItem list"
  | ContinuationPrompt string jobj
  | ErrorCorrectionPrompt jobj string "SessionHistoryItem list"

text \<open>
  The events: a call of the transport, a capture of the screen state, a call of the
  model, and the messages emitted to the client (\<^verbatim>\<open>command-start\<close>,
  \<^verbatim>\<open>command-result\<close> with its success flag and, on failure, the message,
  \<^verbatim>\<open>handle-instruction-start\<close>, \<^verbatim>\<open>instruction-response\<close>, \<^verbatim>\<open>task-result\<close>,
  \<^verbatim>\<open>error-correction-start\<close>, \<^verbatim>\<open>error-correction-end\<close> and \<^verbatim>\<open>error\<close>). An error
  notice tells which handler emitted it.
\<close>

datatype notice_source = InstructionHandler | CorrectionHandler

datatype event =
    Transport transport_call
  | Capture
  | Inference prompt
  | CommandStart jobj
  | CommandOutcome jobj bool "string option"
  | HandleInstructionStart
  | InstructionResponse AIResponse
  | TaskResult string jsval
  | ErrorCorrectionStart
  | ErrorCorrectionEnd AIResponse
  | ErrorNotice notice_source string

text \<open>The time stamps of a screen state: of the screenshot and of the layout capture.\<close>

record snapshot =
  screenshot_timestamp :: jsval
  ui_timestamp :: jsval

text \<open>
  The environment. A transport call answers with the message of its failure, if it
  fails; a capture and a call of the model answer with \<^term>\<open>Inl\<close> of the message
  when they throw.
\<close>

record env =
  transport :: "event list \<Rightarrow> transport_call \<Rightarrow> string option"
  capture :: "event list \<Rightarrow> string + snapshot"
  callLLMAPI :: "event list \<Rightarrow> prompt \<Rightarrow> string + api_response"
  clock :: "event list \<Rightarrow> string"

section \<open>Command dispatcher (server/services/commandExecutor.ts)\<close>

datatype exec_error =
    InvalidCommandFormat
  | UnknownCommandType jsval
  | EmptyComposite
  | TransportFailure string

text \<open>
  A result object: the \<^verbatim>\<open>success\<close> flag and the other properties, or for a composite
  command the flag and the results of the inner commands.
\<close>

datatype CommandResult =
    Plain (success: bool) (fields: jobj)
  | Composite (success: bool) (results: "CommandResult list")

text \<open>One call of the transport: the call is recorded, then it fails or returns.\<close>

definition call_transport ::
    "(event list \<Rightarrow> transport_call \<Rightarrow> string option) \<Rightarrow> event list \<Rightarrow> transport_call
      \<Rightarrow> CommandResult \<Rightarrow> (exec_error + CommandResult) \<times> event list" where
  "call_transport dev tr call res =
     (case dev tr call of
        Some msg \<Rightarrow> (Inl (TransportFailure msg), tr @ [Transport call])
      | None \<Rightarrow> (Inr res, tr @ [Transport call]))"

lemma size_get_less: "size (get kv k) < Suc (size_list (size_prod (\<lambda>_. 0) size) kv)"
  by (induction kv) (auto simp: get_def)

lemma size_prop_of_less: "prop_of c k' = JStr s \<Longrightarrow> size (prop_of c k) < size c"
  by (cases c) (auto simp: size_get_less)

text \<open>
  \<^verbatim>\<open>executeCommand\<close> and \<^verbatim>\<open>executeCompositeCommand\<close>. The third function is the
  \<^verbatim>\<open>for\<close> loop of the latter, with the entries pushed onto \<^verbatim>\<open>results\<close> so far.
\<close>

function executeCommand ::
    "(event list \<Rightarrow> transport_call \<Rightarrow> string option) \<Rightarrow> event list \<Rightarrow> jsval
      \<Rightarrow> (exec_error + CommandResult) \<times> event list"
  and executeCompositeCommand ::
    "(event list \<Rightarrow> transport_call \<Rightarrow> string option) \<Rightarrow> event list \<Rightarrow> jsval
      \<Rightarrow> (exec_error + CommandResult) \<times> event list"
  and composite_loop ::
    "(event list \<Rightarrow> transport_call \<Rightarrow> string option) \<Rightarrow> event list \<Rightarrow> jsval list
      \<Rightarrow> CommandResult list \<Rightarrow> (exec_error + CommandResult) \<times> event list"
where
  "executeCommand dev tr command =
     (if \<not> truthy command \<or> \<not> truthy (prop_of command ''type'')
      then (Inl InvalidCommandFormat, tr)
      else if prop_of command ''type'' = JStr ''tap''
      then call_transport dev tr (Tap (prop_of command ''x'') (prop_of command ''y''))
             (Plain True [(''x'', prop_of command ''x''), (''y'', prop_of command ''y'')])
      else if prop_of command ''type'' = JStr ''swipe''
      then call_transport dev tr
             (Swipe (prop_of command ''startX'') (prop_of command ''startY'')
                    (prop_of command ''endX'') (prop_of command ''endY'')
                    (if prop_of command ''duration'' = JUndefined then JNum 300
                     else prop_of command ''duration''))
             (Plain True [(''startX'', prop_of command ''startX''),
                          (''startY'', prop_of command ''startY''),
                          (''endX'', prop_of command ''endX''),
                          (''endY'', prop_of command ''endY''),
                          (''duration'', if prop_of command ''duration'' = JUndefined then JNum 300
                                         else prop_of command ''duration'')])
      else if prop_of command ''type'' = JStr ''text''
      then call_transport dev tr (InputText (prop_of command ''text''))
             (Plain True [(''text'', prop_of command ''text'')])
      else if prop_of command ''type'' = JStr ''key''
      then call_transport dev tr (PressKey (prop_of command ''keycode''))
             (Plain True [(''keycode'', prop_of command ''keycode'')])
      else if prop_of command ''type'' = JStr ''wait''
      then (Inr (Plain True [(''duration'', if truthy (prop_of command ''duration'')
                                            then prop_of command ''duration'' else JNum 1000)]), tr)
      else if prop_of command ''type'' = JStr ''back''
      then call_transport dev tr (PressKey (JNum 4)) (Plain True [(''keycode'', JNum 4)])
      else if prop_of command ''type'' = JStr ''home''
      then call_transport dev tr (PressKey (JNum 3)) (Plain True [(''keycode'', JNum 3)])
      else if prop_of command ''type'' = JStr ''app_switch''
      then call_transport dev tr (PressKey (JNum 187)) (Plain True [(''keycode'', JNum 187)])
      else if prop_of command ''type'' = JStr ''composite''
      then executeCompositeCommand dev tr (prop_of command ''commands'')
      else (Inl (UnknownCommandType (prop_of command ''type'')), tr))"
| "executeCompositeCommand dev tr cmds =
     (case cmds of
        JArr cs \<Rightarrow> if length cs = 0 then (Inl EmptyComposite, tr)
                   else composite_loop dev tr cs []
      | _ \<Rightarrow> (Inl EmptyComposite, tr))"
| "composite_loop dev tr [] pushed = (Inr (Composite True pushed), tr)"
| "composite_loop dev tr (cmd # rest) pushed =
     (case executeCommand dev tr cmd of
        (Inl e, tr') \<Rightarrow> (Inl e, tr')
      | (Inr r, tr') \<Rightarrow> composite_loop dev tr' rest (pushed @ [r]))"
  by pat_completeness auto
termination executeCommand
  by (relation "measure (\<lambda>x. case x of
          Inl (dev, tr, c) \<Rightarrow> 2 * size c
        | Inr (Inl (dev, tr, v)) \<Rightarrow> 2 * size v + 1
        | Inr (Inr (dev, tr, cs, res)) \<Rightarrow> 2 * size_list size cs)")
     (auto dest: size_prop_of_less [where k = "''commands''"])

declare executeCommand.simps [simp del]

section \<open>Orchestration loop (server/socket.ts)\<close>

text \<open>
  Session contexts are objects that are passed by reference and mutated, so they live
  in a store: a list of objects, an object's address being its index. The socket
  holds the address of its context, or nothing before the first instruction.
\<close>

record state =
  trace :: "event list"
  heap :: "SessionContext list"
  sessionContext :: "nat option"

definition deref :: "SessionContext list \<Rightarrow> nat \<Rightarrow> SessionContext" where
  "deref h a = (if a < length h then h ! a else empty_context)"

definition emit :: "event list \<Rightarrow> state \<Rightarrow> state" where
  "emit evs st = st\<lparr>trace := trace st @ evs\<rparr>"

text \<open>\<^verbatim>\<open>socket.sessionContext || {}\<close>: the socket's object, or a fresh empty one.\<close>

definition context_arg :: "state \<Rightarrow> nat \<times> state" where
  "context_arg st =
     (case sessionContext st of
        Some a \<Rightarrow> (a, st)
      | None \<Rightarrow> (length (heap st), st\<lparr>heap := heap st @ [empty_context]\<rparr>))"

text \<open>
  The message of an exception, as \<^verbatim>\<open>formatError\<close> reads it; the messages of the
  dispatcher are glossed, and the gloss for an unknown type leaves the type out.
\<close>

definition exec_message :: "exec_error \<Rightarrow> string" where
  "exec_message e =
     (case e of
        InvalidCommandFormat \<Rightarrow> ''invalid command format''
      | UnknownCommandType t \<Rightarrow> ''unknown command type''
      | EmptyComposite \<Rightarrow> ''a composite command must be a non-empty array of commands''
      | TransportFailure msg \<Rightarrow> msg)"

definition exn_message :: "exn \<Rightarrow> string" where
  "exn_message e = (case e of TypeError \<Rightarrow> ''TypeError'')"

subsection \<open>handleAIInstruction (services/aiService.ts)\<close>

record HandleInstructionOptions =
  o_instruction :: "string option"
  o_snapshot :: snapshot
  o_sessionContext :: nat
  o_isErrorCorrection :: bool
  o_error :: "(jobj \<times> string) option"
  o_isContinuation :: bool
  o_previousCommand :: "jobj option"

text \<open>Gloss of the instruction text stored for a round that has no instruction.\<close>

definition auto_correction :: string where
  "auto_correction = ''(automatic correction)''"

text \<open>The choice among the three prompt builders, and the history each of them reads.\<close>

definition build_prompt :: "HandleInstructionOptions \<Rightarrow> string \<Rightarrow> SessionContext \<Rightarrow> prompt" where
  "build_prompt opts instruction ctx =
     (case (o_isErrorCorrection opts, o_error opts) of
        (True, Some (command, msg)) \<Rightarrow>
          ErrorCorrectionPrompt command msg (slice_last 1 (history_of ctx))
      | _ \<Rightarrow>
          (case (o_isContinuation opts, o_previousCommand opts) of
             (True, Some previousCommand) \<Rightarrow> ContinuationPrompt instruction previousCommand
           | _ \<Rightarrow> InstructionPrompt instruction (slice_last 3 (history_of ctx))))"

definition handleAIInstruction ::
    "env \<Rightarrow> state \<Rightarrow> HandleInstructionOptions \<Rightarrow> (string + AIResponse) \<times> state" where
  "handleAIInstruction e st opts =
     (let instruction = (case o_instruction opts of None \<Rightarrow> [] | Some i \<Rightarrow> i);
          a = o_sessionContext opts;
          p = build_prompt opts instruction (deref (heap st) a);
          st1 = emit [Inference p] st
      in case callLLMAPI e (trace st) p of
           Inl msg \<Rightarrow> (Inl msg, st1)
         | Inr response \<Rightarrow>
             let parsedResponse = parseModelResponse response;
                 newItem = \<lparr>item_instruction = (if instruction = [] then auto_correction
                                                 else instruction),
                            item_screenshot = Some (screenshot_timestamp (o_snapshot opts)),
                            item_uiElements = Some (ui_timestamp (o_snapshot opts)),
                            item_parsedResponse = parsedResponse\<rparr>;
                 (raised, ctx') = updateSessionContext (deref (heap st1) a) newItem
                                    (clock e (trace st1));
                 st2 = st1\<lparr>heap := (heap st1)[a := ctx']\<rparr>
             in (case raised of
                   Some x \<Rightarrow> (Inl (exn_message x), st2)
                 | None \<Rightarrow> (Inr parsedResponse, st2)))"

subsection \<open>Single command and error correction\<close>

text \<open>\<^verbatim>\<open>getCurrentScreenState\<close>: the capture is recorded, then it throws or returns.\<close>

definition getCurrentScreenState :: "env \<Rightarrow> state \<Rightarrow> (string + snapshot) \<times> state" where
  "getCurrentScreenState e st = (capture e (trace st), emit [Capture] st)"

text \<open>
  The functions below may call each other without end (a corrective command that
  fails starts another correction; a continuation round may answer with commands that
  lead to another round). They take fuel: the number of nested correction or
  continuation rounds allowed. \<^term>\<open>None\<close> means that the fuel ran out.

  \<^verbatim>\<open>executeAndHandleSingleCommand\<close> returns its report, of which the callers read the
  success flag only. \<^verbatim>\<open>handleErrorCorrection\<close> catches every exception of its body.
  The third function is the \<^verbatim>\<open>for\<close> loop over the corrective commands.
\<close>

fun executeAndHandleSingleCommand :: "nat \<Rightarrow> env \<Rightarrow> state \<Rightarrow> jobj \<Rightarrow> (bool \<times> state) option"
  and handleErrorCorrection :: "nat \<Rightarrow> env \<Rightarrow> state \<Rightarrow> jobj \<Rightarrow> string \<Rightarrow> state option"
  and correction_loop :: "nat \<Rightarrow> env \<Rightarrow> state \<Rightarrow> jobj list \<Rightarrow> state option"
where
  "executeAndHandleSingleCommand fuel e st command =
     (case executeCommand (transport e) (trace st @ [CommandStart command]) (JObj command) of
        (Inr r, tr) \<Rightarrow>
          Some (True, st\<lparr>trace := tr @ [CommandOutcome command True None]\<rparr>)
      | (Inl err, tr) \<Rightarrow>
          (case handleErrorCorrection fuel e
                  (st\<lparr>trace := tr @ [CommandOutcome command False (Some (exec_message err))]\<rparr>)
                  command (exec_message err) of
             None \<Rightarrow> None
           | Some st' \<Rightarrow> Some (False, st')))"
| "handleErrorCorrection 0 e st command msg = None"
| "handleErrorCorrection (Suc fuel) e st command msg =
     (case getCurrentScreenState e st of
        (Inl m, st1) \<Rightarrow> Some (emit [ErrorNotice CorrectionHandler m] st1)
      | (Inr snap, st1) \<Rightarrow>
          (case context_arg (emit [ErrorCorrectionStart] st1) of (a, st2) \<Rightarrow>
          (case handleAIInstruction e st2
                  \<lparr>o_instruction = None, o_snapshot = snap, o_sessionContext = a,
                   o_isErrorCorrection = True, o_error = Some (command, msg),
                   o_isContinuation = False, o_previousCommand = None\<rparr> of
             (Inl m, st3) \<Rightarrow> Some (emit [ErrorNotice CorrectionHandler m] st3)
           | (Inr correction, st3) \<Rightarrow>
               (case correction_loop fuel e st3 (commands correction) of
                  None \<Rightarrow> None
                | Some st4 \<Rightarrow> Some (emit [ErrorCorrectionEnd correction] st4)))))"
| "correction_loop fuel e st [] = Some st"
| "correction_loop fuel e st (correctionCommand # rest) =
     (case executeAndHandleSingleCommand fuel e st correctionCommand of
        None \<Rightarrow> None
      | Some (r, st') \<Rightarrow> correction_loop fuel e st' rest)"

declare executeAndHandleSingleCommand.simps [simp del]

declare handleErrorCorrection.simps [simp del]

subsection \<open>Command sequence and continuation\<close>

text \<open>
  \<^verbatim>\<open>executeCommandSequence\<close> and \<^verbatim>\<open>continueTaskExecution\<close> let the exceptions of a
  capture and of the model call through: the result is \<^term>\<open>Inl\<close> of the message.
\<close>

fun executeCommandSequence ::
    "nat \<Rightarrow> env \<Rightarrow> state \<Rightarrow> jobj list \<Rightarrow> string \<Rightarrow> ((string + unit) \<times> state) option"
  and continueTaskExecution ::
    "nat \<Rightarrow> env \<Rightarrow> state \<Rightarrow> string \<Rightarrow> jobj \<Rightarrow> ((string + unit) \<times> state) option"
where
  "executeCommandSequence fuel e st [] instruction = Some (Inr (), st)"
| "executeCommandSequence fuel e st (command # rest) instruction =
     (case executeAndHandleSingleCommand fuel e st command of
        None \<Rightarrow> None
      | Some (ok, st1) \<Rightarrow>
          (case (if ok \<and> \<not> truthy (get command ''isTaskComplete'')
                 then continueTaskExecution fuel e st1 instruction command
                 else Some (Inr (), st1)) of
             None \<Rightarrow> None
           | Some (Inl m, st2) \<Rightarrow> Some (Inl m, st2)
           | Some (Inr u, st2) \<Rightarrow>
               if \<not> ok \<or> truthy (get command ''isTaskComplete'')
               then Some (Inr (), st2)
               else executeCommandSequence fuel e st2 rest instruction))"
| "continueTaskExecution 0 e st instruction previousCommand = None"
| "continueTaskExecution (Suc fuel) e st instruction previousCommand =
     (case getCurrentScreenState e st of
        (Inl m, st1) \<Rightarrow> Some (Inl m, st1)
      | (Inr snap, st1) \<Rightarrow>
          (case context_arg st1 of (a, st2) \<Rightarrow>
          (case handleAIInstruction e st2
                  \<lparr>o_instruction = Some instruction, o_snapshot = snap, o_sessionContext = a,
                   o_isErrorCorrection = False, o_error = None,
                   o_isContinuation = True, o_previousCommand = Some previousCommand\<rparr> of
             (Inl m, st3) \<Rightarrow> Some (Inl m, st3)
           | (Inr continuationResponse, st3) \<Rightarrow>
               (let st4 = (if truthy (result continuationResponse)
                           then emit [TaskResult instruction (result continuationResponse)] st3
                           else st3)
                in if length (commands continuationResponse) > 0
                   then executeCommandSequence fuel e
                          (emit [InstructionResponse continuationResponse] st4)
                          (commands continuationResponse) instruction
                   else Some (Inr (), st4)))))"

declare executeCommandSequence.simps [simp del]

declare continueTaskExecution.simps [simp del]

subsection \<open>The handler of \<^verbatim>\<open>send-instruction\<close>\<close>

text \<open>
  The assignment \<^verbatim>\<open>socket.sessionContext = {...}\<close> builds a new object from the value
  that \<^verbatim>\<open>socket.sessionContext\<close> has after the model call. The new object takes over
  the history array of the old one, which nothing refers to afterwards; the model
  copies the history.
\<close>

definition rebuild_context :: "env \<Rightarrow> state \<Rightarrow> string \<Rightarrow> state" where
  "rebuild_context e st instruction =
     (let old = (case sessionContext st of None \<Rightarrow> empty_context
                 | Some a \<Rightarrow> deref (heap st) a)
      in st\<lparr>heap := heap st @ [\<lparr>history = Some (history_of old),
                                  lastOperation = Some (instruction, clock e (trace st))\<rparr>],
            sessionContext := Some (length (heap st))\<rparr>)"

definition send_instruction :: "nat \<Rightarrow> env \<Rightarrow> state \<Rightarrow> string \<Rightarrow> state option" where
  "send_instruction fuel e st instruction =
     (case getCurrentScreenState e st of
        (Inl m, st1) \<Rightarrow> Some (emit [ErrorNotice InstructionHandler m] st1)
      | (Inr snap, st1) \<Rightarrow>
          (case context_arg (emit [HandleInstructionStart] st1) of (a, st2) \<Rightarrow>
          (case handleAIInstruction e st2
                  \<lparr>o_instruction = Some instruction, o_snapshot = snap, o_sessionContext = a,
                   o_isErrorCorrection = False, o_error = None,
                   o_isContinuation = False, o_previousCommand = None\<rparr> of
             (Inl m, st3) \<Rightarrow> Some (emit [ErrorNotice InstructionHandler m] st3)
           | (Inr response, st3) \<Rightarrow>
               (let st4 = emit [InstructionResponse response] (rebuild_context e st3 instruction)
                in if length (commands response) > 0
                   then (case executeCommandSequence fuel e st4 (commands response) instruction of
                           None \<Rightarrow> None
                         | Some (Inl m, st5) \<Rightarrow> Some (emit [ErrorNotice InstructionHandler m] st5)
                         | Some (Inr u, st5) \<Rightarrow> Some st5)
                   else Some st4))))"

text \<open>A newly connected socket: nothing has happened and no context is set.\<close>

definition new_socket :: state where
  "new_socket = \<lparr>trace = [], heap = [], sessionContext = None\<rparr>"

section \<open>Notions used in the statements\<close>

subsection \<open>Element tree\<close>

text \<open>A small element tree and a small raw capture, for evaluation.\<close>

definition sample_tree :: UIElement where
  "sample_tree =
     UIElement (Some ''android.widget.FrameLayout'') None (Some '''') None False zeroBounds 0
       [UIElement (Some ''android.widget.Button'') (Some ''ok'') (Some ''OK'') None True
          zeroBounds 1 [],
        UIElement (Some ''android.widget.TextView'') None (Some ''hello'') None False
          zeroBounds 1 [],
        UIElement (Some ''android.widget.Button'') None None (Some ''back'') True
          zeroBounds 1 []]"



subsection \<open>Commands in the requested schema\<close>

definition is_number :: "jsval \<Rightarrow> bool" where
  "is_number v = (case v of JNum n \<Rightarrow> True | _ \<Rightarrow> False)"

text \<open>
  The canonical schema: a tap with numbers \<^verbatim>\<open>x\<close> and \<^verbatim>\<open>y\<close>, a swipe with numbers
  \<^verbatim>\<open>startX\<close>, \<^verbatim>\<open>startY\<close>, \<^verbatim>\<open>endX\<close> and \<^verbatim>\<open>endY\<close>. Other properties are free.
\<close>

definition canonical_tap :: "jobj \<Rightarrow> bool" where
  "canonical_tap c =
     (get c ''type'' = JStr ''tap'' \<and> is_number (get c ''x'') \<and> is_number (get c ''y''))"

definition canonical_swipe :: "jobj \<Rightarrow> bool" where
  "canonical_swipe c =
     (get c ''type'' = JStr ''swipe''
      \<and> is_number (get c ''startX'') \<and> is_number (get c ''startY'')
      \<and> is_number (get c ''endX'') \<and> is_number (get c ''endY''))"

subsection \<open>Session history\<close>

text \<open>The item that \<^verbatim>\<open>updateSessionContext\<close> pushes for a new item.\<close>

definition condensed :: "SessionHistoryItem \<Rightarrow> SessionHistoryItem" where
  "condensed item =
     (case simplifiedResponse (item_parsedResponse item) of
        Inr simplified \<Rightarrow> \<lparr>item_instruction = item_instruction item,
                            item_screenshot = item_screenshot item,
                            item_uiElements = item_uiElements item,
                            item_parsedResponse = simplified\<rparr>
      | Inl e \<Rightarrow> item)"

text \<open>
  Any number of appends, one after the other, each with its own time stamp; an append
  that raises ends the sequence with \<^term>\<open>None\<close>.
\<close>

fun update_all ::
    "SessionContext \<Rightarrow> (SessionHistoryItem \<times> string) list \<Rightarrow> SessionContext option" where
  "update_all ctx [] = Some ctx"
| "update_all ctx ((item, now) # rest) =
     (case updateSessionContext ctx item now of
        (None, ctx') \<Rightarrow> update_all ctx' rest
      | (Some e, ctx') \<Rightarrow> None)"

text \<open>Three history items, told apart by their instruction, and an empty reply.\<close>

definition empty_reply :: AIResponse where
  "empty_reply = \<lparr>thinking = JStr ''ok'', commands = [], result = JUndefined,
                  isTaskComplete = JUndefined, error = None\<rparr>"

definition item_named :: "string \<Rightarrow> SessionHistoryItem" where
  "item_named i = \<lparr>item_instruction = i, item_screenshot = None, item_uiElements = None,
                   item_parsedResponse = empty_reply\<rparr>"

subsection \<open>Final-command marks\<close>

text \<open>The mark a raw command of the model carries, \<^term>\<open>JUndefined\<close> if it carries none.\<close>

definition raw_final :: "jsval \<Rightarrow> jsval" where
  "raw_final x = get (spread x) ''isFinalCommand''"

text \<open>
  A reply whose JSON names two taps and marks the first of them final, and a reply
  without JSON whose text holds a labelled command section.
\<close>

definition reply_first_marked :: api_response where
  "reply_first_marked =
     Content \<lparr>jsonPart = Parsed (JObj [(''commands'', JArr
                 [JObj [(''type'', JStr ''tap''), (''x'', JNum 1), (''y'', JNum 2),
                        (''isFinalCommand'', JBool True)],
                  JObj [(''type'', JStr ''tap''), (''x'', JNum 3), (''y'', JNum 4)]])]),
              commandsMatch = None, thinkingMatch = None\<rparr>"

definition reply_free_text :: api_response where
  "reply_free_text =
     Content \<lparr>jsonPart = NoMatch, commandsMatch = Some ''open settings'',
              thinkingMatch = None\<rparr>"

definition reply_two_taps :: api_response where
  "reply_two_taps =
     Content \<lparr>jsonPart = Parsed (JObj [(''commands'', JArr
                 [JObj [(''type'', JStr ''tap''), (''x'', JNum 1), (''y'', JNum 2)],
                  JObj [(''type'', JStr ''tap''), (''x'', JNum 3), (''y'', JNum 4)]])]),
              commandsMatch = None, thinkingMatch = None\<rparr>"

subsection \<open>Dispatcher\<close>

text \<open>The nine values of \<^verbatim>\<open>CommandType\<close>.\<close>

definition CommandType :: "string list" where
  "CommandType = [''tap'', ''swipe'', ''text'', ''key'', ''wait'', ''back'', ''home'',
                  ''app_switch'', ''composite'']"

text \<open>
  All commands of a list succeed one after the other, each run on the trace its
  predecessor left: the results in order and the trace at the end.
\<close>

fun run_all ::
    "(event list \<Rightarrow> transport_call \<Rightarrow> string option) \<Rightarrow> event list \<Rightarrow> jsval list
      \<Rightarrow> (CommandResult list \<times> event list) option" where
  "run_all dev tr [] = Some ([], tr)"
| "run_all dev tr (c # cs) =
     (case executeCommand dev tr c of
        (Inr r, tr') \<Rightarrow> (case run_all dev tr' cs of
                           Some (rs, tr'') \<Rightarrow> Some (r # rs, tr'')
                         | None \<Rightarrow> None)
      | (Inl e, tr') \<Rightarrow> None)"

text \<open>A device on which the home key fails, and one on which nothing fails.\<close>

definition home_key_fails :: "event list \<Rightarrow> transport_call \<Rightarrow> string option" where
  "home_key_fails tr call = (if call = PressKey (JNum 3) then Some ''device offline'' else None)"

definition device_ok :: "event list \<Rightarrow> transport_call \<Rightarrow> string option" where
  "device_ok tr call = None"

text \<open>A device that rejects a tap whose coordinates are not numbers.\<close>

definition strict_device :: "event list \<Rightarrow> transport_call \<Rightarrow> string option" where
  "strict_device tr call =
     (case call of
        Tap x y \<Rightarrow> if is_number x \<and> is_number y then None else Some ''invalid arguments''
      | _ \<Rightarrow> None)"

definition back_home_back :: jsval where
  "back_home_back =
     JObj [(''type'', JStr ''composite''),
           (''commands'', JArr [JObj [(''type'', JStr ''back'')],
                                JObj [(''type'', JStr ''home'')],
                                JObj [(''type'', JStr ''back'')]])]"

subsection \<open>Runs of the orchestration loop\<close>

text \<open>
  The shape of the events of one \<^verbatim>\<open>executeAndHandleSingleCommand\<close>. A command is
  announced, dispatched (the transport calls it makes) and reported. A failed dispatch
  is followed by one error correction for that command and that message: a capture,
  and then either the notice that the capture failed, or the start notice, one call of
  the model with the failing command and its message, and then either the notice that
  the round failed or the runs of the corrective commands, one after the other, and
  the end notice.
\<close>

inductive single_run :: "event list \<Rightarrow> bool"
  and correction_run :: "jobj \<Rightarrow> string \<Rightarrow> event list \<Rightarrow> bool"
  and corrective_runs :: "jobj list \<Rightarrow> event list \<Rightarrow> bool"
where
  dispatched:
    "single_run (CommandStart c # map Transport calls @ [CommandOutcome c True None])"
| corrected:
    "correction_run c m evs \<Longrightarrow>
     single_run (CommandStart c # map Transport calls @ CommandOutcome c False (Some m) # evs)"
| capture_failed:
    "correction_run c m [Capture, ErrorNotice CorrectionHandler x]"
| round_failed:
    "correction_run c m [Capture, ErrorCorrectionStart,
                         Inference (ErrorCorrectionPrompt c m h),
                         ErrorNotice CorrectionHandler x]"
| round_done:
    "corrective_runs (commands r) evs \<Longrightarrow>
     correction_run c m ([Capture, ErrorCorrectionStart,
                          Inference (ErrorCorrectionPrompt c m h)]
                         @ evs @ [ErrorCorrectionEnd r])"
| no_more: "corrective_runs [] []"
| one_more:
    "single_run evs \<Longrightarrow> corrective_runs cs evs' \<Longrightarrow> corrective_runs (c # cs) (evs @ evs')"

text \<open>The context the socket holds, the empty object if it holds none.\<close>

definition socket_context :: "state \<Rightarrow> SessionContext" where
  "socket_context st =
     (case sessionContext st of None \<Rightarrow> empty_context | Some a \<Rightarrow> deref (heap st) a)"

definition is_inference :: "event \<Rightarrow> bool" where
  "is_inference ev = (case ev of Inference p \<Rightarrow> True | _ \<Rightarrow> False)"


text \<open>
  An environment in which nothing fails. The model answers an instruction with one
  tap that does not complete the task, and every other prompt with no command.
\<close>

definition reply_none :: api_response where
  "reply_none =
     Content \<lparr>jsonPart = Parsed (JObj [(''thinking'', JStr ''done''), (''commands'', JArr [])]),
              commandsMatch = None, thinkingMatch = None\<rparr>"

definition reply_one_tap :: api_response where
  "reply_one_tap =
     Content \<lparr>jsonPart = Parsed (JObj [(''thinking'', JStr ''tap it''),
                 (''commands'', JArr [JObj [(''type'', JStr ''tap''), (''x'', JNum 1),
                                            (''y'', JNum 2)]])]),
              commandsMatch = None, thinkingMatch = None\<rparr>"

definition snap0 :: snapshot where
  "snap0 = \<lparr>screenshot_timestamp = JNum 0, ui_timestamp = JNum 0\<rparr>"

definition quiet_env :: env where
  "quiet_env = \<lparr>transport = (\<lambda>tr call. None),
                capture = (\<lambda>tr. Inr snap0),
                callLLMAPI = (\<lambda>tr p. Inr reply_none),
                clock = (\<lambda>tr. ''now'')\<rparr>"

definition tapping_env :: env where
  "tapping_env = \<lparr>transport = (\<lambda>tr call. None),
                  capture = (\<lambda>tr. Inr snap0),
                  callLLMAPI = (\<lambda>tr p. case p of InstructionPrompt i h \<Rightarrow> Inr reply_one_tap
                                          | _ \<Rightarrow> Inr reply_none),
                  clock = (\<lambda>tr. ''now'')\<rparr>"

text \<open>An environment in which every transport call fails and nothing else does.\<close>

definition offline_env :: env where
  "offline_env = \<lparr>transport = (\<lambda>tr call. Some ''device offline''),
                  capture = (\<lambda>tr. Inr snap0),
                  callLLMAPI = (\<lambda>tr p. Inr reply_none),
                  clock = (\<lambda>tr. ''now'')\<rparr>"

text \<open>The batch of two taps of the scenario, neither of which completes the task.\<close>

definition first_tap :: jobj where
  "first_tap = [(''type'', JStr ''tap''), (''x'', JNum 1), (''y'', JNum 2),
                (''isTaskComplete'', JBool False), (''isFinalCommand'', JBool False)]"


text \<open>
  The tap that \<^verbatim>\<open>parseModelResponse\<close> makes of the tap of \<^const>\<open>reply_one_tap\<close>, with
  its two marks.
\<close>

definition corrective_tap :: jobj where
  "corrective_tap = [(''type'', JStr ''tap''), (''x'', JNum 1), (''y'', JNum 2),
                     (''isTaskComplete'', JBool False), (''isFinalCommand'', JBool True)]"

text \<open>
  Two environments in which every transport call fails. In the first the model answers
  the correction of \<^const>\<open>first_tap\<close> with one tap and every other prompt with no
  command; in the second it answers every prompt with one tap.
\<close>

definition retry_env :: env where
  "retry_env = \<lparr>transport = (\<lambda>tr call. Some ''device offline''),
                capture = (\<lambda>tr. Inr snap0),
                callLLMAPI = (\<lambda>tr p. case p of
                                ErrorCorrectionPrompt c m h \<Rightarrow>
                                  if c = first_tap then Inr reply_one_tap else Inr reply_none
                              | _ \<Rightarrow> Inr reply_none),
                clock = (\<lambda>tr. ''now'')\<rparr>"

definition stubborn_env :: env where
  "stubborn_env = \<lparr>transport = (\<lambda>tr call. Some ''device offline''),
                   capture = (\<lambda>tr. Inr snap0),
                   callLLMAPI = (\<lambda>tr p. Inr reply_one_tap),
                   clock = (\<lambda>tr. ''now'')\<rparr>"

text \<open>
  The commands of a list dispatched one after the other, each announced and reported,
  when the dispatch of each succeeds: the trace at the end. \<^term>\<open>None\<close> if a dispatch
  fails.
\<close>

fun dispatch_all ::
    "(event list \<Rightarrow> transport_call \<Rightarrow> string option) \<Rightarrow> event list \<Rightarrow> jobj list
      \<Rightarrow> event list option" where
  "dispatch_all dev tr [] = Some tr"
| "dispatch_all dev tr (c # cs) =
     (case executeCommand dev (tr @ [CommandStart c]) (JObj c) of
        (Inr r, tr') \<Rightarrow> dispatch_all dev (tr' @ [CommandOutcome c True None]) cs
      | (Inl err, tr') \<Rightarrow> None)"

text \<open>A socket after its first instruction: its context is set and the history empty.\<close>

definition ready_socket :: state where
  "ready_socket = \<lparr>trace = [], heap = [\<lparr>history = Some [], lastOperation = None\<rparr>],
                   sessionContext = Some 0\<rparr>"

text \<open>
  What a part of the loop may do to the socket: it extends the trace and leaves the
  socket's reference alone; it may add objects to the store, but of the objects that
  exist it changes none but the socket's context; it changes the store only if it
  calls the model, and the history of the socket's context grows by at most one item
  for each call of the model.
\<close>

definition frame :: "state \<Rightarrow> state \<Rightarrow> bool" where
  "frame st st' =
     (sessionContext st' = sessionContext st \<and>
      length (heap st) \<le> length (heap st') \<and>
      (\<forall>i < length (heap st). sessionContext st \<noteq> Some i \<longrightarrow> heap st' ! i = heap st ! i) \<and>
      (\<exists>evs. trace st' = trace st @ evs \<and>
             (filter is_inference evs = [] \<longrightarrow> heap st' = heap st) \<and>
             length (history_of (socket_context st'))
               \<le> length (history_of (socket_context st)) + length (filter is_inference evs)))"

text \<open>
  The prompts built for instructions along a trace: for each of them the instruction
  and the instructions of the history items the prompt shows.
\<close>

definition prompt_histories :: "event list \<Rightarrow> (string \<times> string list) list" where
  "prompt_histories tr =
     List.map_filter
       (\<lambda>ev. case ev of
                Inference (InstructionPrompt i h) \<Rightarrow> Some (i, map item_instruction h)
              | _ \<Rightarrow> None) tr"

section \<open>Properties\<close>

subsection \<open>Properties of the element tree\<close>























lemma traverse_cong_matches:
  "(\<And>e. element_matches o1 e = element_matches o2 e) \<Longrightarrow> traverse o1 el = traverse o2 el"
proof (induction o1 el rule: traverse.induct)
  case (1 options ty i t cd cl b d ch)
  have *: "map (traverse options) ch = map (traverse o2) ch"
    using 1 by (intro map_cong) auto
  show ?case using "1.prems" by (simp add: *)
qed

lemma findClickable_cong:
  "(\<And>e. element_matches o1 e = element_matches o2 e)
    \<Longrightarrow> findClickableElements r o1 = findClickableElements r o2"
  unfolding findClickableElements_def
  by (cases r) (auto intro: traverse_cong_matches)

text \<open>
  Claim C10. In \<^verbatim>\<open>findClickableElements\<close> a predicate field given as the empty string
  selects exactly what the unset field selects, for each of the four fields, whatever
  the other fields are; in particular \<^verbatim>\<open>{text: ""}\<close> selects what \<^verbatim>\<open>{}\<close> selects.
\<close>

theorem findClickableElements_empty_is_wildcard:
  "findClickableElements r (opts\<lparr>opt_text := Some ''''\<rparr>)
     = findClickableElements r (opts\<lparr>opt_text := None\<rparr>) \<and>
   findClickableElements r (opts\<lparr>opt_contentDesc := Some ''''\<rparr>)
     = findClickableElements r (opts\<lparr>opt_contentDesc := None\<rparr>) \<and>
   findClickableElements r (opts\<lparr>opt_resourceId := Some ''''\<rparr>)
     = findClickableElements r (opts\<lparr>opt_resourceId := None\<rparr>) \<and>
   findClickableElements r (opts\<lparr>opt_className := Some ''''\<rparr>)
     = findClickableElements r (opts\<lparr>opt_className := None\<rparr>) \<and>
   findClickableElements r (no_options\<lparr>opt_text := Some ''''\<rparr>)
     = findClickableElements r no_options \<and>
   findClickableElements r (no_options\<lparr>opt_contentDesc := Some ''''\<rparr>)
     = findClickableElements r no_options \<and>
   findClickableElements r (no_options\<lparr>opt_resourceId := Some ''''\<rparr>)
     = findClickableElements r no_options \<and>
   findClickableElements r (no_options\<lparr>opt_className := Some ''''\<rparr>)
     = findClickableElements r no_options"
  by (intro conjI findClickable_cong)
     (simp_all add: element_matches_def truthy_str_def no_options_def)

text \<open>
  The claim at a tree with two clickable buttons: the empty text selects both, as no
  option does, while a text that is not empty selects one.
\<close>

theorem findClickableElements_empty_is_wildcard_witness:
  "findClickableElements (Some sample_tree) (no_options\<lparr>opt_text := Some ''''\<rparr>)
     = findClickableElements (Some sample_tree) no_options
   \<and> findClickableElements (Some sample_tree) no_options
     = [UIElement (Some ''android.widget.Button'') (Some ''ok'') (Some ''OK'') None True
          zeroBounds 1 [],
        UIElement (Some ''android.widget.Button'') None None (Some ''back'') True
          zeroBounds 1 []]
   \<and> findClickableElements (Some sample_tree) (no_options\<lparr>opt_text := Some ''OK''\<rparr>)
     = [UIElement (Some ''android.widget.Button'') (Some ''ok'') (Some ''OK'') None True
          zeroBounds 1 []]"
  using findClickableElements_empty_is_wildcard [of "Some sample_tree" no_options]
  by (simp add: findClickableElements_def sample_tree_def element_matches_def truthy_str_def
      no_options_def)

subsection \<open>Properties of the response normalizer\<close>

lemma get_put: "get (put k v c) k' = (if k' = k then v else get c k')"
  by (simp add: get_def put_def update_conv')

lemma get_del: "get (del k c) k' = (if k' = k then JUndefined else get c k')"
  by (simp add: get_def del_def delete_conv')

text \<open>
  Claim C8, as the code has it. A command in the canonical schema (a tap with numbers
  \<^verbatim>\<open>x\<close> and \<^verbatim>\<open>y\<close>, a swipe with numbers \<^verbatim>\<open>startX\<close>, \<^verbatim>\<open>startY\<close>, \<^verbatim>\<open>endX\<close>, \<^verbatim>\<open>endY\<close>)
  leaves \<^verbatim>\<open>normalizeCommand\<close> as it entered, unless it also carries an array
  \<^verbatim>\<open>coordinate\<close> that a repair reads: for a tap an array of length two, for a swipe
  an array next to an array \<^verbatim>\<open>coordinate2\<close>, or an array of length four. If it does,
  the discrete coordinates are overwritten with the entries of the arrays. The repairs
  touch drifted shapes only: a command is returned unchanged unless it names its type
  by \<^verbatim>\<open>action\<close>, is a \<^verbatim>\<open>click\<close>, or carries an array \<^verbatim>\<open>coordinate\<close>. The drifted click
  with a coordinate pair becomes the tap with \<^verbatim>\<open>x = 160\<close> and \<^verbatim>\<open>y = 200\<close>, and the
  drifted swipe with two coordinate pairs becomes the swipe with the four discrete
  coordinates.
\<close>

theorem normalizeCommand_roundtrip:
  "(canonical_tap c \<and> \<not> is_pair (get c ''coordinate'') \<longrightarrow> normalizeCommand (JObj c) = c) \<and>
   (canonical_tap c \<and> get c ''coordinate'' = JArr [a, b] \<longrightarrow>
      get (normalizeCommand (JObj c)) ''x'' = a \<and>
      get (normalizeCommand (JObj c)) ''y'' = b \<and>
      get (normalizeCommand (JObj c)) ''coordinate'' = JUndefined) \<and>
   (canonical_swipe c \<and>
    \<not> (isArray (get c ''coordinate'') \<and>
         (isArray (get c ''coordinate2'') \<or> length (elems (get c ''coordinate'')) = 4))
      \<longrightarrow> normalizeCommand (JObj c) = c) \<and>
   (canonical_swipe c \<and> isArray (get c ''coordinate'') \<and> isArray (get c ''coordinate2'') \<longrightarrow>
      get (normalizeCommand (JObj c)) ''startX'' = at_index (elems (get c ''coordinate'')) 0 \<and>
      get (normalizeCommand (JObj c)) ''startY'' = at_index (elems (get c ''coordinate'')) 1 \<and>
      get (normalizeCommand (JObj c)) ''endX'' = at_index (elems (get c ''coordinate2'')) 0 \<and>
      get (normalizeCommand (JObj c)) ''endY'' = at_index (elems (get c ''coordinate2'')) 1) \<and>
   (canonical_swipe c \<and> isArray (get c ''coordinate'') \<and> \<not> isArray (get c ''coordinate2'') \<and>
    length (elems (get c ''coordinate'')) = 4 \<longrightarrow>
      get (normalizeCommand (JObj c)) ''startX'' = at_index (elems (get c ''coordinate'')) 0 \<and>
      get (normalizeCommand (JObj c)) ''startY'' = at_index (elems (get c ''coordinate'')) 1 \<and>
      get (normalizeCommand (JObj c)) ''endX'' = at_index (elems (get c ''coordinate'')) 2 \<and>
      get (normalizeCommand (JObj c)) ''endY'' = at_index (elems (get c ''coordinate'')) 3) \<and>
   (\<not> isArray (get c ''coordinate'') \<and> get c ''type'' \<noteq> JStr ''click'' \<and>
    (truthy (get c ''type'') \<or> \<not> truthy (get c ''action''))
      \<longrightarrow> normalizeCommand (JObj c) = c) \<and>
   normalizeCommand (JObj [(''action'', JStr ''click''), (''coordinate'', JArr [JNum 160, JNum 200])])
     = [(''type'', JStr ''tap''), (''x'', JNum 160), (''y'', JNum 200)] \<and>
   normalizeCommand (JObj [(''type'', JStr ''swipe''), (''coordinate'', JArr [JNum 10, JNum 20]),
                           (''coordinate2'', JArr [JNum 10, JNum 200])])
     = [(''type'', JStr ''swipe''), (''startX'', JNum 10), (''startY'', JNum 20),
        (''endX'', JNum 10), (''endY'', JNum 200)]"
proof (intro conjI impI)
  assume "canonical_tap c \<and> \<not> is_pair (get c ''coordinate'')"
  then show "normalizeCommand (JObj c) = c"
    by (simp add: canonical_tap_def normalizeCommand_def repair_action_def repair_tap_def
        repair_swipe_def)
next
  assume a: "canonical_tap c \<and> get c ''coordinate'' = JArr [a, b]"
  then have ra: "repair_action c = c"
    by (simp add: canonical_tap_def repair_action_def)
  have rt: "repair_tap c = del ''coordinate'' (put ''y'' b (put ''x'' a (put ''type'' (JStr ''tap'') c)))"
    using a by (simp add: canonical_tap_def repair_tap_def is_pair_def get_put elems_def
        at_index_def Let_def)
  have n: "normalizeCommand (JObj c)
      = del ''coordinate'' (put ''y'' b (put ''x'' a (put ''type'' (JStr ''tap'') c)))"
    by (simp add: normalizeCommand_def ra rt repair_swipe_def get_put get_del)
  show "get (normalizeCommand (JObj c)) ''x'' = a" by (simp add: n get_put get_del)
  show "get (normalizeCommand (JObj c)) ''y'' = b" by (simp add: n get_put get_del)
  show "get (normalizeCommand (JObj c)) ''coordinate'' = JUndefined"
    by (simp add: n get_put get_del)
next
  assume a: "canonical_swipe c \<and>
    \<not> (isArray (get c ''coordinate'') \<and>
         (isArray (get c ''coordinate2'') \<or> length (elems (get c ''coordinate'')) = 4))"
  then have ra: "repair_action c = c"
    by (simp add: canonical_swipe_def repair_action_def)
  have rt: "repair_tap c = c"
    using a by (simp add: canonical_swipe_def repair_tap_def)
  show "normalizeCommand (JObj c) = c"
    using a by (auto simp: normalizeCommand_def ra rt repair_swipe_def)
next
  assume a: "canonical_swipe c \<and> isArray (get c ''coordinate'') \<and> isArray (get c ''coordinate2'')"
  then have ra: "repair_action c = c"
    by (simp add: canonical_swipe_def repair_action_def)
  have rt: "repair_tap c = c"
    using a by (simp add: canonical_swipe_def repair_tap_def)
  have n: "normalizeCommand (JObj c) = del ''coordinate2'' (del ''coordinate''
                  (put ''endY'' (at_index (elems (get c ''coordinate2'')) 1)
                  (put ''endX'' (at_index (elems (get c ''coordinate2'')) 0)
                  (put ''startY'' (at_index (elems (get c ''coordinate'')) 1)
                  (put ''startX'' (at_index (elems (get c ''coordinate'')) 0) c)))))"
    using a by (simp add: normalizeCommand_def ra rt repair_swipe_def canonical_swipe_def)
  show "get (normalizeCommand (JObj c)) ''startX'' = at_index (elems (get c ''coordinate'')) 0"
    by (simp add: n get_put get_del)
  show "get (normalizeCommand (JObj c)) ''startY'' = at_index (elems (get c ''coordinate'')) 1"
    by (simp add: n get_put get_del)
  show "get (normalizeCommand (JObj c)) ''endX'' = at_index (elems (get c ''coordinate2'')) 0"
    by (simp add: n get_put get_del)
  show "get (normalizeCommand (JObj c)) ''endY'' = at_index (elems (get c ''coordinate2'')) 1"
    by (simp add: n get_put get_del)
next
  assume a: "canonical_swipe c \<and> isArray (get c ''coordinate'') \<and> \<not> isArray (get c ''coordinate2'') \<and>
    length (elems (get c ''coordinate'')) = 4"
  then have ra: "repair_action c = c"
    by (simp add: canonical_swipe_def repair_action_def)
  have rt: "repair_tap c = c"
    using a by (simp add: canonical_swipe_def repair_tap_def)
  have n: "normalizeCommand (JObj c) = del ''coordinate''
                  (put ''endY'' (at_index (elems (get c ''coordinate'')) 3)
                  (put ''endX'' (at_index (elems (get c ''coordinate'')) 2)
                  (put ''startY'' (at_index (elems (get c ''coordinate'')) 1)
                  (put ''startX'' (at_index (elems (get c ''coordinate'')) 0) c))))"
    using a by (simp add: normalizeCommand_def ra rt repair_swipe_def canonical_swipe_def)
  show "get (normalizeCommand (JObj c)) ''startX'' = at_index (elems (get c ''coordinate'')) 0"
    by (simp add: n get_put get_del)
  show "get (normalizeCommand (JObj c)) ''startY'' = at_index (elems (get c ''coordinate'')) 1"
    by (simp add: n get_put get_del)
  show "get (normalizeCommand (JObj c)) ''endX'' = at_index (elems (get c ''coordinate'')) 2"
    by (simp add: n get_put get_del)
  show "get (normalizeCommand (JObj c)) ''endY'' = at_index (elems (get c ''coordinate'')) 3"
    by (simp add: n get_put get_del)
next
  assume "\<not> isArray (get c ''coordinate'') \<and> get c ''type'' \<noteq> JStr ''click'' \<and>
    (truthy (get c ''type'') \<or> \<not> truthy (get c ''action''))"
  then have a: "\<not> isArray (get c ''coordinate'')" "get c ''type'' \<noteq> JStr ''click''"
    "truthy (get c ''type'') \<or> \<not> truthy (get c ''action'')"
    by simp_all
  have np: "\<not> is_pair (get c ''coordinate'')"
    using a(1) by (cases "get c ''coordinate''") (simp_all add: is_pair_def isArray_def)
  have ra: "repair_action c = c"
    using a(3) by (auto simp: repair_action_def)
  show "normalizeCommand (JObj c) = c"
    using a(1,2) np by (simp add: normalizeCommand_def ra repair_tap_def repair_swipe_def)
next
  show "normalizeCommand (JObj [(''action'', JStr ''click''), (''coordinate'', JArr [JNum 160, JNum 200])])
     = [(''type'', JStr ''tap''), (''x'', JNum 160), (''y'', JNum 200)]"
    by (simp add: normalizeCommand_def repair_action_def repair_tap_def repair_swipe_def
        get_def put_def del_def is_pair_def elems_def at_index_def)
next
  show "normalizeCommand (JObj [(''type'', JStr ''swipe''), (''coordinate'', JArr [JNum 10, JNum 20]),
                           (''coordinate2'', JArr [JNum 10, JNum 200])])
     = [(''type'', JStr ''swipe''), (''startX'', JNum 10), (''startY'', JNum 20),
        (''endX'', JNum 10), (''endY'', JNum 200)]"
    by (simp add: normalizeCommand_def repair_action_def repair_tap_def repair_swipe_def
        get_def put_def del_def isArray_def elems_def at_index_def)
qed

text \<open>The claim at the tap of the prompt's own example.\<close>

theorem normalizeCommand_roundtrip_witness:
  "canonical_tap [(''type'', JStr ''tap''), (''x'', JNum 160), (''y'', JNum 200),
                  (''isTaskComplete'', JBool False)] \<and>
   \<not> is_pair (get [(''type'', JStr ''tap''), (''x'', JNum 160), (''y'', JNum 200),
                    (''isTaskComplete'', JBool False)] ''coordinate'') \<and>
   normalizeCommand (JObj [(''type'', JStr ''tap''), (''x'', JNum 160), (''y'', JNum 200),
                           (''isTaskComplete'', JBool False)])
     = [(''type'', JStr ''tap''), (''x'', JNum 160), (''y'', JNum 200),
        (''isTaskComplete'', JBool False)]"
proof -
  have c: "canonical_tap [(''type'', JStr ''tap''), (''x'', JNum 160), (''y'', JNum 200),
                  (''isTaskComplete'', JBool False)] \<and>
     \<not> is_pair (get [(''type'', JStr ''tap''), (''x'', JNum 160), (''y'', JNum 200),
                    (''isTaskComplete'', JBool False)] ''coordinate'')"
    by (simp add: canonical_tap_def get_def is_number_def is_pair_def)
  show ?thesis
    using normalizeCommand_roundtrip
      [of "[(''type'', JStr ''tap''), (''x'', JNum 160), (''y'', JNum 200),
            (''isTaskComplete'', JBool False)]"] c
    by blast
qed

text \<open>
  Claim C8 as stated fails: a tap that has the numbers \<^verbatim>\<open>x = 160\<close> and \<^verbatim>\<open>y = 200\<close> and
  also a pair \<^verbatim>\<open>coordinate\<close> leaves the repair with the entries of the pair as its
  \<^verbatim>\<open>x\<close> and \<^verbatim>\<open>y\<close>, and a swipe that has its four numbers and also an array
  \<^verbatim>\<open>coordinate\<close> of length four leaves it with the entries of the array.
\<close>

theorem canonical_fields_overwritten_counterexample:
  "canonical_tap [(''type'', JStr ''tap''), (''x'', JNum 160), (''y'', JNum 200),
                  (''coordinate'', JArr [JNum 1, JNum 2])] \<and>
   normalizeCommand (JObj [(''type'', JStr ''tap''), (''x'', JNum 160), (''y'', JNum 200),
                           (''coordinate'', JArr [JNum 1, JNum 2])])
     = [(''type'', JStr ''tap''), (''x'', JNum 1), (''y'', JNum 2)] \<and>
   canonical_swipe [(''type'', JStr ''swipe''), (''startX'', JNum 10), (''startY'', JNum 20),
                    (''endX'', JNum 10), (''endY'', JNum 200),
                    (''coordinate'', JArr [JNum 1, JNum 2, JNum 3, JNum 4])] \<and>
   normalizeCommand (JObj [(''type'', JStr ''swipe''), (''startX'', JNum 10), (''startY'', JNum 20),
                           (''endX'', JNum 10), (''endY'', JNum 200),
                           (''coordinate'', JArr [JNum 1, JNum 2, JNum 3, JNum 4])])
     = [(''type'', JStr ''swipe''), (''startX'', JNum 1), (''startY'', JNum 2),
        (''endX'', JNum 3), (''endY'', JNum 4)]"
  by (simp add: canonical_tap_def canonical_swipe_def is_number_def normalizeCommand_def
      repair_action_def repair_tap_def repair_swipe_def get_def put_def del_def is_pair_def
      isArray_def elems_def at_index_def)

subsection \<open>Properties of the session history\<close>

lemma slice_last_length: "length (slice_last n xs) \<le> n"
  by (simp add: slice_last_def)

lemma slice_last_short: "length xs \<le> n \<Longrightarrow> slice_last n xs = xs"
  by (simp add: slice_last_def)

lemma slice_last_snoc: "slice_last n (slice_last n xs @ ys) = slice_last n (xs @ ys)"
proof (cases "length xs \<le> n")
  case True
  then show ?thesis by (simp add: slice_last_def)
next
  case False
  then have "length xs - n + (n + length ys - n) = length xs + length ys - n"
    by simp
  with False show ?thesis
    by (simp add: slice_last_def add.commute)
qed

lemma updateSessionContext_history:
  assumes "updateSessionContext ctx item now = (None, ctx')"
  shows "history ctx' = Some (slice_last MAX_CONTEXT_ITEMS (history_of ctx @ [condensed item]))"
  using assms
  by (auto simp: updateSessionContext_def condensed_def Let_def history_of_def slice_last_short
      split: sum.splits option.splits if_splits)

lemma update_all_history:
  "update_all ctx items = Some ctx' \<Longrightarrow> items \<noteq> [] \<Longrightarrow>
   history ctx' = Some (slice_last MAX_CONTEXT_ITEMS (history_of ctx @ map (\<lambda>(i, t). condensed i) items))"
proof (induction items arbitrary: ctx)
  case Nil
  then show ?case by simp
next
  case (Cons a items)
  obtain item now where a: "a = (item, now)" by (cases a)
  obtain r c1 where u: "updateSessionContext ctx item now = (r, c1)" by (cases "updateSessionContext ctx item now")
  with Cons.prems a have r: "r = None" and rest: "update_all c1 items = Some ctx'"
    by (auto split: option.splits)
  have h1: "history c1 = Some (slice_last MAX_CONTEXT_ITEMS (history_of ctx @ [condensed item]))"
    using updateSessionContext_history u r by simp
  show ?case
  proof (cases "items = []")
    case True
    with rest h1 a show ?thesis by simp
  next
    case False
    from Cons.IH[OF rest False] h1 a show ?thesis
      by (simp add: history_of_def slice_last_snoc)
  qed
qed

lemma update_all_completes:
  "\<forall>(i, t) \<in> set items. \<exists>s. thinking (item_parsedResponse i) = JStr s \<Longrightarrow> update_all ctx items \<noteq> None"
proof (induction items arbitrary: ctx)
  case Nil
  then show ?case by simp
next
  case (Cons a items)
  obtain item now where a: "a = (item, now)" by (cases a)
  from Cons.prems a obtain s where "thinking (item_parsedResponse item) = JStr s" by auto
  then have "fst (updateSessionContext ctx item now) = None"
    by (simp add: updateSessionContext_def simplifiedResponse_def Let_def)
  then obtain c1 where "updateSessionContext ctx item now = (None, c1)"
    by (cases "updateSessionContext ctx item now") auto
  moreover have "update_all c1 items \<noteq> None"
    using Cons.IH [of c1] Cons.prems by simp
  ultimately show ?case using a by simp
qed

text \<open>
  Claim C6. After an append that completes, the history holds the last five entries
  of the old history followed by the new condensed item: at most five items, the
  oldest dropped first, the order of the others kept. The same holds after any
  positive number of appends, and a sequence of appends completes whenever the
  \<^verbatim>\<open>thinking\<close> of every appended response is a string.
\<close>

theorem session_history_bounded_fifo:
  "(updateSessionContext ctx item now = (None, ctx') \<longrightarrow>
      history ctx' = Some (slice_last 5 (history_of ctx @ [condensed item])) \<and>
      length (history_of ctx') \<le> 5) \<and>
   (update_all ctx items = Some ctx'' \<and> items \<noteq> [] \<longrightarrow>
      history ctx'' = Some (slice_last 5 (history_of ctx @ map (\<lambda>(i, t). condensed i) items)) \<and>
      length (history_of ctx'') \<le> 5) \<and>
   ((\<forall>(i, t) \<in> set items. \<exists>s. thinking (item_parsedResponse i) = JStr s) \<longrightarrow>
      update_all ctx items \<noteq> None)"
  using updateSessionContext_history [of ctx item now ctx']
        update_all_history [of ctx items ctx''] update_all_completes [of items ctx]
  by (auto simp: MAX_CONTEXT_ITEMS_def history_of_def slice_last_length)

text \<open>
  The claim at a history of five items \<open>a\<close> to \<open>e\<close>: appending \<open>f\<close> evicts \<open>a\<close>, and
  appending \<open>f\<close> and then \<open>g\<close> evicts \<open>a\<close> and \<open>b\<close>.
\<close>

theorem session_history_bounded_fifo_witness:
  "fst (updateSessionContext
          \<lparr>history = Some (map item_named [''a'', ''b'', ''c'', ''d'', ''e'']), lastOperation = None\<rparr>
          (item_named ''f'') ''t1'') = None
   \<and> map item_instruction (history_of (snd (updateSessionContext
          \<lparr>history = Some (map item_named [''a'', ''b'', ''c'', ''d'', ''e'']), lastOperation = None\<rparr>
          (item_named ''f'') ''t1''))) = [''b'', ''c'', ''d'', ''e'', ''f'']
   \<and> map_option (\<lambda>c. map item_instruction (history_of c))
         (update_all
            \<lparr>history = Some (map item_named [''a'', ''b'', ''c'', ''d'', ''e'']), lastOperation = None\<rparr>
            [(item_named ''f'', ''t1''), (item_named ''g'', ''t2'')])
       = Some [''c'', ''d'', ''e'', ''f'', ''g'']"
proof -
  define C where "C = \<lparr>history = Some (map item_named [''a'', ''b'', ''c'', ''d'', ''e'']),
                          lastOperation = None\<rparr>"
  obtain r c1 where u: "updateSessionContext C (item_named ''f'') ''t1'' = (r, c1)"
    by (cases "updateSessionContext C (item_named ''f'') ''t1''")
  have r: "r = None"
    using u by (auto simp: updateSessionContext_def simplifiedResponse_def item_named_def
        empty_reply_def Let_def)
  obtain c2 where a: "update_all C [(item_named ''f'', ''t1''), (item_named ''g'', ''t2'')] = Some c2"
    using update_all_completes [of "[(item_named ''f'', ''t1''), (item_named ''g'', ''t2'')]" C]
    by (auto simp: item_named_def empty_reply_def)
  have "history c1 = Some (slice_last 5 (history_of C @ [condensed (item_named ''f'')]))"
    and "history c2 = Some (slice_last 5 (history_of C
            @ map (\<lambda>(i, t). condensed i) [(item_named ''f'', ''t1''), (item_named ''g'', ''t2'')]))"
    using session_history_bounded_fifo
      [of C "item_named ''f''" "''t1''" c1
          "[(item_named ''f'', ''t1''), (item_named ''g'', ''t2'')]" c2] u r a
    by simp_all
  then have "map item_instruction (history_of c1) = [''b'', ''c'', ''d'', ''e'', ''f'']"
    and "map item_instruction (history_of c2) = [''c'', ''d'', ''e'', ''f'', ''g'']"
    by (simp_all add: history_of_def C_def slice_last_def condensed_def simplifiedResponse_def
        item_named_def empty_reply_def)
  then show ?thesis
    using u r a unfolding C_def [symmetric] by simp
qed

subsection \<open>Properties of the final-command marks\<close>

lemma normalizeCommand_final:
  "get (normalizeCommand x) ''isFinalCommand'' = raw_final x"
  by (simp add: normalizeCommand_def repair_swipe_def repair_tap_def repair_action_def
      raw_final_def get_put get_del Let_def)

lemma default_flags_final:
  "get (default_flags t c) ''isFinalCommand'' =
     (if get c ''isFinalCommand'' = JUndefined then JBool False else get c ''isFinalCommand'')"
  by (simp add: default_flags_def Let_def get_put)

lemma mark_last_length: "length (mark_last cs) = length cs"
  by (simp add: mark_last_def)

lemma mark_last_last:
  "cs \<noteq> [] \<Longrightarrow> get (last (mark_last cs)) ''isFinalCommand'' = JBool True"
  by (simp add: mark_last_def last_conv_nth get_put)

lemma mark_last_nth: "i < length cs - 1 \<Longrightarrow> mark_last cs ! i = cs ! i"
  by (simp add: mark_last_def)

lemma mark_last_snoc: "mark_last (cs @ [c]) = cs @ [put ''isFinalCommand'' (JBool True) c]"
  by (simp add: mark_last_def)

lemma final_count_mark_last:
  assumes "cs \<noteq> []" and "\<forall>i < length cs - 1. get (cs ! i) ''isFinalCommand'' \<noteq> JBool True"
  shows "final_count (mark_last cs) = 1"
proof -
  obtain bs c where cs: "cs = bs @ [c]"
    using assms(1) by (metis append_butlast_last_id)
  have "\<forall>b \<in> set bs. get b ''isFinalCommand'' \<noteq> JBool True"
  proof
    fix b assume "b \<in> set bs"
    then obtain i where "i < length bs" "bs ! i = b" by (auto simp: in_set_conv_nth)
    with assms(2) cs show "get b ''isFinalCommand'' \<noteq> JBool True"
      by (auto simp: nth_append)
  qed
  then have "filter (\<lambda>c. get c ''isFinalCommand'' = JBool True) bs = []"
    by (simp add: filter_empty_conv)
  then show ?thesis
    by (simp add: cs mark_last_snoc final_count_def get_put)
qed

text \<open>
  Claim C1, as the code has it. When the JSON of a reply is an object with a
  non-empty array of commands, the normalizer returns as many commands, the last of
  them marked \<^verbatim>\<open>isFinalCommand = true\<close>; each command before the last keeps the mark the
  model gave it and gets \<^verbatim>\<open>false\<close> only where the model gave none. So exactly one
  command is marked final, the last one, whenever the model marked none of the
  commands before the last as final.
\<close>

theorem last_command_marked_final:
  assumes "jsonPart v = Parsed (JObj p)" and "get p ''commands'' = JArr xs" and "xs \<noteq> []"
  shows "length (commands (parseModelResponse (Content v))) = length xs \<and>
         get (last (commands (parseModelResponse (Content v)))) ''isFinalCommand'' = JBool True \<and>
         (\<forall>i < length xs - 1.
            get (commands (parseModelResponse (Content v)) ! i) ''isFinalCommand'' =
              (if raw_final (xs ! i) = JUndefined then JBool False else raw_final (xs ! i))) \<and>
         ((\<forall>i < length xs - 1. raw_final (xs ! i) \<noteq> JBool True) \<longrightarrow>
            final_count (commands (parseModelResponse (Content v))) = 1)"
proof -
  define cs where "cs = map (default_flags (get p ''isTaskComplete'')) (map normalizeCommand xs)"
  have cmds: "commands (parseModelResponse (Content v)) = mark_last cs"
    using assms by (simp add: parseModelResponse_def from_parsed_def clean_response_def cs_def)
  have len: "length cs = length xs" by (simp add: cs_def)
  have ne: "cs \<noteq> []" using assms(3) by (simp add: cs_def)
  have nth: "get (cs ! i) ''isFinalCommand'' =
      (if raw_final (xs ! i) = JUndefined then JBool False else raw_final (xs ! i))"
    if "i < length xs" for i
    using that by (simp add: cs_def default_flags_final normalizeCommand_final)
  have a: "length (mark_last cs) = length xs" by (simp add: mark_last_length len)
  have b: "get (last (mark_last cs)) ''isFinalCommand'' = JBool True"
    by (rule mark_last_last [OF ne])
  have c: "\<forall>i < length xs - 1. get (mark_last cs ! i) ''isFinalCommand'' =
              (if raw_final (xs ! i) = JUndefined then JBool False else raw_final (xs ! i))"
    using nth by (simp add: mark_last_nth len)
  have d: "final_count (mark_last cs) = 1" if "\<forall>i < length xs - 1. raw_final (xs ! i) \<noteq> JBool True"
  proof (rule final_count_mark_last [OF ne])
    show "\<forall>i<length cs - 1. get (cs ! i) ''isFinalCommand'' \<noteq> JBool True"
      using that nth by (simp add: len)
  qed
  show ?thesis unfolding cmds using a b c d by blast
qed

text \<open>The claim at a reply of two taps that carry no marks.\<close>

theorem last_command_marked_final_witness:
  "map (\<lambda>c. get c ''isFinalCommand'') (commands (parseModelResponse reply_two_taps))
     = [JBool False, JBool True]
   \<and> final_count (commands (parseModelResponse reply_two_taps)) = 1"
proof -
  have ev: "map (\<lambda>c. get c ''isFinalCommand'') (commands (parseModelResponse reply_two_taps))
     = [JBool False, JBool True]"
    by (simp add: reply_two_taps_def parseModelResponse_def from_parsed_def clean_response_def
        normalizeCommand_def repair_swipe_def repair_tap_def repair_action_def default_flags_def
        mark_last_def get_def put_def del_def is_pair_def Let_def)
  have "final_count (commands (parseModelResponse reply_two_taps)) = 1"
    using last_command_marked_final
      [of "\<lparr>jsonPart = Parsed (JObj [(''commands'', JArr
                 [JObj [(''type'', JStr ''tap''), (''x'', JNum 1), (''y'', JNum 2)],
                  JObj [(''type'', JStr ''tap''), (''x'', JNum 3), (''y'', JNum 4)]])]),
              commandsMatch = None, thinkingMatch = None\<rparr>"
          "[(''commands'', JArr
                 [JObj [(''type'', JStr ''tap''), (''x'', JNum 1), (''y'', JNum 2)],
                  JObj [(''type'', JStr ''tap''), (''x'', JNum 3), (''y'', JNum 4)]])]"
          "[JObj [(''type'', JStr ''tap''), (''x'', JNum 1), (''y'', JNum 2)],
            JObj [(''type'', JStr ''tap''), (''x'', JNum 3), (''y'', JNum 4)]]"]
    by (simp add: reply_two_taps_def raw_final_def get_def)
  with ev show ?thesis by simp
qed

text \<open>
  Claim C1 as stated fails: a mark \<^verbatim>\<open>isFinalCommand: true\<close> that the model put on the
  first of two commands is kept, so two commands are marked final; and the command
  recovered from free text by the fallback carries no mark at all.
\<close>

theorem model_final_mark_kept_counterexample:
  "commands (parseModelResponse reply_first_marked) \<noteq> []
   \<and> map (\<lambda>c. get c ''isFinalCommand'') (commands (parseModelResponse reply_first_marked))
       = [JBool True, JBool True]
   \<and> final_count (commands (parseModelResponse reply_first_marked)) = 2
   \<and> commands (parseModelResponse reply_free_text)
       = [[(''type'', JStr ''text''), (''text'', JStr ''open settings'')]]
   \<and> final_count (commands (parseModelResponse reply_free_text)) = 0"
  by (simp add: reply_first_marked_def reply_free_text_def parseModelResponse_def
      from_parsed_def clean_response_def fallback_response_def
      normalizeCommand_def repair_swipe_def repair_tap_def repair_action_def default_flags_def
      mark_last_def final_count_def get_def put_def del_def is_pair_def Let_def)

subsection \<open>Properties of the dispatcher\<close>

lemma composite_loop_run_all:
  "run_all dev tr pre = Some (rs, tr1) \<Longrightarrow>
   composite_loop dev tr (pre @ rest) acc = composite_loop dev tr1 rest (acc @ rs)"
proof (induction pre arbitrary: tr acc rs)
  case Nil
  then show ?case by simp
next
  case (Cons c pre)
  then show ?case
    by (auto split: prod.splits sum.splits option.splits)
qed

lemma composite_command_unfold:
  assumes "prop_of c ''type'' = JStr ''composite''" and "prop_of c ''commands'' = JArr cs"
    and "cs \<noteq> []"
  shows "executeCommand dev tr c = composite_loop dev tr cs []"
proof -
  have "truthy c" using assms(1) by (cases c) auto
  then show ?thesis using assms by (simp add: executeCommand.simps)
qed

lemma back_ok: "executeCommand home_key_fails tr (JObj [(''type'', JStr ''back'')])
   = (Inr (Plain True [(''keycode'', JNum 4)]), tr @ [Transport (PressKey (JNum 4))])"
  by (simp add: executeCommand.simps get_def call_transport_def home_key_fails_def)

lemma home_fails: "executeCommand home_key_fails tr (JObj [(''type'', JStr ''home'')])
   = (Inl (TransportFailure ''device offline''), tr @ [Transport (PressKey (JNum 3))])"
  by (simp add: executeCommand.simps get_def call_transport_def home_key_fails_def)

text \<open>
  Claim C3, as the code has it. A composite command runs its inner commands in order,
  each on the trace left by the one before. If the commands before some inner command
  succeed and that command fails, the composite command ends there with that
  command's exception: the commands after it are not run and no result object is
  returned. If all inner commands succeed, the result is the composite result with
  \<^verbatim>\<open>success: true\<close> and the inner results in order.
\<close>

theorem composite_in_order_and_propagates:
  assumes "prop_of c ''type'' = JStr ''composite''"
  shows "(prop_of c ''commands'' = JArr (pre @ cmd # post) \<and>
          run_all dev tr pre = Some (rs, tr1) \<and>
          executeCommand dev tr1 cmd = (Inl e, tr2)
            \<longrightarrow> executeCommand dev tr c = (Inl e, tr2)) \<and>
         (prop_of c ''commands'' = JArr cs \<and> cs \<noteq> [] \<and> run_all dev tr cs = Some (rs, tr1)
            \<longrightarrow> executeCommand dev tr c = (Inr (Composite True rs), tr1))"
proof (intro conjI impI)
  assume a: "prop_of c ''commands'' = JArr (pre @ cmd # post) \<and>
          run_all dev tr pre = Some (rs, tr1) \<and>
          executeCommand dev tr1 cmd = (Inl e, tr2)"
  then have "executeCommand dev tr c = composite_loop dev tr (pre @ cmd # post) []"
    using composite_command_unfold [OF assms, of "pre @ cmd # post"] by simp
  also have "\<dots> = composite_loop dev tr1 (cmd # post) ([] @ rs)"
    using a composite_loop_run_all by blast
  also have "\<dots> = (Inl e, tr2)" using a by simp
  finally show "executeCommand dev tr c = (Inl e, tr2)" .
next
  assume a: "prop_of c ''commands'' = JArr cs \<and> cs \<noteq> [] \<and> run_all dev tr cs = Some (rs, tr1)"
  then have "executeCommand dev tr c = composite_loop dev tr (cs @ []) []"
    using composite_command_unfold [OF assms, of cs] by simp
  also have "\<dots> = composite_loop dev tr1 [] ([] @ rs)"
    using a composite_loop_run_all by blast
  finally show "executeCommand dev tr c = (Inr (Composite True rs), tr1)" by simp
qed

text \<open>
  The claim at the composite of back, home and back on a device whose home key fails:
  back and home are sent, the second back is not.
\<close>

theorem composite_in_order_and_propagates_witness:
  "executeCommand home_key_fails [] back_home_back
     = (Inl (TransportFailure ''device offline''),
        [Transport (PressKey (JNum 4)), Transport (PressKey (JNum 3))])"
proof -
  have "run_all home_key_fails [] [JObj [(''type'', JStr ''back'')]]
      = Some ([Plain True [(''keycode'', JNum 4)]], [Transport (PressKey (JNum 4))])"
    by (simp add: back_ok)
  then show ?thesis
    using composite_in_order_and_propagates
      [of back_home_back "[JObj [(''type'', JStr ''back'')]]" "JObj [(''type'', JStr ''home'')]"
          "[JObj [(''type'', JStr ''back'')]]" home_key_fails "[]"
          "[Plain True [(''keycode'', JNum 4)]]" "[Transport (PressKey (JNum 4))]"
          "TransportFailure ''device offline''"
          "[Transport (PressKey (JNum 4)), Transport (PressKey (JNum 3))]"]
      home_fails [of "[Transport (PressKey (JNum 4))]"]
    by (simp add: back_home_back_def get_def)
qed

text \<open>
  Claim C3 as stated fails: at the first inner failure no composite result is
  returned, with or without the earlier results; the call ends with the exception.
\<close>

theorem composite_failure_counterexample:
  "fst (executeCommand home_key_fails [] back_home_back) = Inl (TransportFailure ''device offline'')
   \<and> (\<nexists>ok rs. fst (executeCommand home_key_fails [] back_home_back) = Inr (Composite ok rs))
   \<and> snd (executeCommand home_key_fails [] back_home_back)
       = [Transport (PressKey (JNum 4)), Transport (PressKey (JNum 3))]"
  by (simp add: back_home_back_def executeCommand.simps get_def call_transport_def
      home_key_fails_def)

text \<open>
  Claim C4, as the code has it. \<^verbatim>\<open>executeCommand\<close> fails with the invalid-format error,
  and calls no transport, for every command that is falsy or whose \<^verbatim>\<open>type\<close> is
  missing or falsy; it fails with the unknown-type error, and calls no transport, for
  every other command whose \<^verbatim>\<open>type\<close> is none of the nine recognised strings. The only
  field it checks is \<^verbatim>\<open>commands\<close> of a composite command: if that is not an array, or
  is an empty one, the call fails before any transport call. For a tap, a swipe, a text
  and a key command no field is checked: the matching function of \<^verbatim>\<open>androidConnection\<close>
  is called once, with the values the fields have (\<^verbatim>\<open>undefined\<close> for a missing field,
  300 for a missing duration of a swipe), and \<^verbatim>\<open>executeCommand\<close> fails exactly when that
  call throws, with the exception of the call. A wait command makes no call and
  succeeds, with 1000 for a missing or falsy duration. A back, a home and an
  app-switch command press their key (4, 3 and 187) and read no field.
\<close>

theorem executeCommand_validation:
  "(\<not> truthy c \<or> \<not> truthy (prop_of c ''type'')
      \<longrightarrow> executeCommand dev tr c = (Inl InvalidCommandFormat, tr)) \<and>
   (truthy c \<and> truthy (prop_of c ''type'') \<and> prop_of c ''type'' \<notin> JStr ` set CommandType
      \<longrightarrow> executeCommand dev tr c = (Inl (UnknownCommandType (prop_of c ''type'')), tr)) \<and>
   (prop_of c ''type'' = JStr ''composite'' \<and>
    (\<not> isArray (prop_of c ''commands'') \<or> elems (prop_of c ''commands'') = [])
      \<longrightarrow> executeCommand dev tr c = (Inl EmptyComposite, tr)) \<and>
   (prop_of c ''type'' = JStr ''tap''
      \<longrightarrow> executeCommand dev tr c =
            (case dev tr (Tap (prop_of c ''x'') (prop_of c ''y'')) of
               Some msg \<Rightarrow> Inl (TransportFailure msg)
             | None \<Rightarrow> Inr (Plain True [(''x'', prop_of c ''x''), (''y'', prop_of c ''y'')]),
             tr @ [Transport (Tap (prop_of c ''x'') (prop_of c ''y''))])) \<and>
   (prop_of c ''type'' = JStr ''swipe'' \<and>
    d = (if prop_of c ''duration'' = JUndefined then JNum 300 else prop_of c ''duration'')
      \<longrightarrow> executeCommand dev tr c =
            (case dev tr (Swipe (prop_of c ''startX'') (prop_of c ''startY'')
                                (prop_of c ''endX'') (prop_of c ''endY'') d) of
               Some msg \<Rightarrow> Inl (TransportFailure msg)
             | None \<Rightarrow> Inr (Plain True [(''startX'', prop_of c ''startX''),
                                         (''startY'', prop_of c ''startY''),
                                         (''endX'', prop_of c ''endX''),
                                         (''endY'', prop_of c ''endY''), (''duration'', d)]),
             tr @ [Transport (Swipe (prop_of c ''startX'') (prop_of c ''startY'')
                                    (prop_of c ''endX'') (prop_of c ''endY'') d)])) \<and>
   (prop_of c ''type'' = JStr ''text''
      \<longrightarrow> executeCommand dev tr c =
            (case dev tr (InputText (prop_of c ''text'')) of
               Some msg \<Rightarrow> Inl (TransportFailure msg)
             | None \<Rightarrow> Inr (Plain True [(''text'', prop_of c ''text'')]),
             tr @ [Transport (InputText (prop_of c ''text''))])) \<and>
   (prop_of c ''type'' = JStr ''key''
      \<longrightarrow> executeCommand dev tr c =
            (case dev tr (PressKey (prop_of c ''keycode'')) of
               Some msg \<Rightarrow> Inl (TransportFailure msg)
             | None \<Rightarrow> Inr (Plain True [(''keycode'', prop_of c ''keycode'')]),
             tr @ [Transport (PressKey (prop_of c ''keycode''))])) \<and>
   (prop_of c ''type'' = JStr ''wait''
      \<longrightarrow> executeCommand dev tr c =
            (Inr (Plain True [(''duration'', if truthy (prop_of c ''duration'')
                                             then prop_of c ''duration'' else JNum 1000)]), tr)) \<and>
   ((prop_of c ''type'', k) \<in> {(JStr ''back'', 4), (JStr ''home'', 3), (JStr ''app_switch'', 187)}
      \<longrightarrow> executeCommand dev tr c =
            (case dev tr (PressKey (JNum k)) of
               Some msg \<Rightarrow> Inl (TransportFailure msg)
             | None \<Rightarrow> Inr (Plain True [(''keycode'', JNum k)]),
             tr @ [Transport (PressKey (JNum k))]))"
proof (intro conjI impI)
  assume "\<not> truthy c \<or> \<not> truthy (prop_of c ''type'')"
  then show "executeCommand dev tr c = (Inl InvalidCommandFormat, tr)"
    by (auto simp: executeCommand.simps)
next
  assume "truthy c \<and> truthy (prop_of c ''type'') \<and> prop_of c ''type'' \<notin> JStr ` set CommandType"
  then show "executeCommand dev tr c = (Inl (UnknownCommandType (prop_of c ''type'')), tr)"
    by (simp add: executeCommand.simps CommandType_def)
next
  assume a: "prop_of c ''type'' = JStr ''composite'' \<and>
    (\<not> isArray (prop_of c ''commands'') \<or> elems (prop_of c ''commands'') = [])"
  then have "truthy c" by (cases c) auto
  with a show "executeCommand dev tr c = (Inl EmptyComposite, tr)"
    by (cases "prop_of c ''commands''")
       (simp_all add: executeCommand.simps isArray_def elems_def)
next
  assume t: "prop_of c ''type'' = JStr ''tap''"
  then have "truthy c" by (cases c) auto
  with t show "executeCommand dev tr c =
            (case dev tr (Tap (prop_of c ''x'') (prop_of c ''y'')) of
               Some msg \<Rightarrow> Inl (TransportFailure msg)
             | None \<Rightarrow> Inr (Plain True [(''x'', prop_of c ''x''), (''y'', prop_of c ''y'')]),
             tr @ [Transport (Tap (prop_of c ''x'') (prop_of c ''y''))])"
    by (simp add: executeCommand.simps call_transport_def split: option.splits)
next
  assume t: "prop_of c ''type'' = JStr ''swipe'' \<and>
    d = (if prop_of c ''duration'' = JUndefined then JNum 300 else prop_of c ''duration'')"
  then have "truthy c" by (cases c) auto
  with t show "executeCommand dev tr c =
            (case dev tr (Swipe (prop_of c ''startX'') (prop_of c ''startY'')
                                (prop_of c ''endX'') (prop_of c ''endY'') d) of
               Some msg \<Rightarrow> Inl (TransportFailure msg)
             | None \<Rightarrow> Inr (Plain True [(''startX'', prop_of c ''startX''),
                                         (''startY'', prop_of c ''startY''),
                                         (''endX'', prop_of c ''endX''),
                                         (''endY'', prop_of c ''endY''), (''duration'', d)]),
             tr @ [Transport (Swipe (prop_of c ''startX'') (prop_of c ''startY'')
                                    (prop_of c ''endX'') (prop_of c ''endY'') d)])"
    by (simp add: executeCommand.simps call_transport_def split: option.splits)
next
  assume t: "prop_of c ''type'' = JStr ''text''"
  then have "truthy c" by (cases c) auto
  with t show "executeCommand dev tr c =
            (case dev tr (InputText (prop_of c ''text'')) of
               Some msg \<Rightarrow> Inl (TransportFailure msg)
             | None \<Rightarrow> Inr (Plain True [(''text'', prop_of c ''text'')]),
             tr @ [Transport (InputText (prop_of c ''text''))])"
    by (simp add: executeCommand.simps call_transport_def split: option.splits)
next
  assume t: "prop_of c ''type'' = JStr ''key''"
  then have "truthy c" by (cases c) auto
  with t show "executeCommand dev tr c =
            (case dev tr (PressKey (prop_of c ''keycode'')) of
               Some msg \<Rightarrow> Inl (TransportFailure msg)
             | None \<Rightarrow> Inr (Plain True [(''keycode'', prop_of c ''keycode'')]),
             tr @ [Transport (PressKey (prop_of c ''keycode''))])"
    by (simp add: executeCommand.simps call_transport_def split: option.splits)
next
  assume t: "prop_of c ''type'' = JStr ''wait''"
  then have "truthy c" by (cases c) auto
  with t show "executeCommand dev tr c =
            (Inr (Plain True [(''duration'', if truthy (prop_of c ''duration'')
                                             then prop_of c ''duration'' else JNum 1000)]), tr)"
    by (simp add: executeCommand.simps)
next
  assume "(prop_of c ''type'', k) \<in> {(JStr ''back'', 4), (JStr ''home'', 3), (JStr ''app_switch'', 187)}"
  then consider "prop_of c ''type'' = JStr ''back''" "k = 4"
    | "prop_of c ''type'' = JStr ''home''" "k = 3"
    | "prop_of c ''type'' = JStr ''app_switch''" "k = 187"
    by blast
  then show "executeCommand dev tr c =
            (case dev tr (PressKey (JNum k)) of
               Some msg \<Rightarrow> Inl (TransportFailure msg)
             | None \<Rightarrow> Inr (Plain True [(''keycode'', JNum k)]),
             tr @ [Transport (PressKey (JNum k))])"
  proof cases
    case 1
    then have "truthy c" by (cases c) simp_all
    with 1 show ?thesis
      by (simp add: executeCommand.simps call_transport_def split: option.splits)
  next
    case 2
    then have "truthy c" by (cases c) simp_all
    with 2 show ?thesis
      by (simp add: executeCommand.simps call_transport_def split: option.splits)
  next
    case 3
    then have "truthy c" by (cases c) simp_all
    with 3 show ?thesis
      by (simp add: executeCommand.simps call_transport_def split: option.splits)
  qed
qed

text \<open>
  The claim at a command of an unknown type, at a command without a type, at a
  composite command without commands, and at a tap, a key and a back command that the
  transport accepts.
\<close>

theorem executeCommand_validation_witness:
  "executeCommand device_ok [] (JObj [(''type'', JStr ''fly'')])
     = (Inl (UnknownCommandType (JStr ''fly'')), [])
   \<and> executeCommand device_ok [] (JObj [(''x'', JNum 1), (''y'', JNum 2)])
     = (Inl InvalidCommandFormat, [])
   \<and> executeCommand device_ok [] (JObj [(''type'', JStr ''composite'')])
     = (Inl EmptyComposite, [])
   \<and> executeCommand device_ok [] (JObj [(''type'', JStr ''tap''), (''x'', JNum 1), (''y'', JNum 2)])
     = (Inr (Plain True [(''x'', JNum 1), (''y'', JNum 2)]), [Transport (Tap (JNum 1) (JNum 2))])
   \<and> executeCommand device_ok [] (JObj [(''type'', JStr ''key'')])
     = (Inr (Plain True [(''keycode'', JUndefined)]), [Transport (PressKey JUndefined)])
   \<and> executeCommand device_ok [] (JObj [(''type'', JStr ''back'')])
     = (Inr (Plain True [(''keycode'', JNum 4)]), [Transport (PressKey (JNum 4))])"
  using executeCommand_validation [of "JObj [(''type'', JStr ''fly'')]" device_ok "[]"]
        executeCommand_validation [of "JObj [(''x'', JNum 1), (''y'', JNum 2)]" device_ok "[]"]
        executeCommand_validation [of "JObj [(''type'', JStr ''composite'')]" device_ok "[]"]
        executeCommand_validation
          [of "JObj [(''type'', JStr ''tap''), (''x'', JNum 1), (''y'', JNum 2)]" device_ok "[]"]
        executeCommand_validation [of "JObj [(''type'', JStr ''key'')]" device_ok "[]"]
        executeCommand_validation [of "JObj [(''type'', JStr ''back'')]" device_ok "[]" _ 4]
  by (simp add: get_def CommandType_def isArray_def device_ok_def)

text \<open>
  Claim C4 as stated fails: a tap without \<^verbatim>\<open>x\<close> and \<^verbatim>\<open>y\<close> is sent to the transport, with
  both coordinates \<^verbatim>\<open>undefined\<close>. It succeeds when the transport does, and when the
  transport rejects the call the failure is the transport's, not one of validation.
\<close>

theorem tap_without_coordinates_counterexample:
  "executeCommand device_ok [] (JObj [(''type'', JStr ''tap'')])
     = (Inr (Plain True [(''x'', JUndefined), (''y'', JUndefined)]),
        [Transport (Tap JUndefined JUndefined)])
   \<and> executeCommand strict_device [] (JObj [(''type'', JStr ''tap'')])
     = (Inl (TransportFailure ''invalid arguments''),
        [Transport (Tap JUndefined JUndefined)])"
  by (simp add: executeCommand.simps get_def call_transport_def device_ok_def
      strict_device_def is_number_def)

subsection \<open>Properties of the orchestration loop\<close>

lemma call_transport_trace:
  "\<exists>calls. snd (call_transport dev tr call res) = tr @ map Transport calls"
proof -
  have "snd (call_transport dev tr call res) = tr @ map Transport [call]"
    by (simp add: call_transport_def split: option.splits)
  then show ?thesis by blast
qed

lemma trace_nil: "\<exists>calls. tr = tr @ map Transport calls"
  by (rule exI [of _ "[]"]) simp

lemma trace_trans:
  assumes "\<exists>calls. tr1 = tr @ map Transport calls" and "\<exists>calls. tr2 = tr1 @ map Transport calls"
  shows "\<exists>calls. tr2 = tr @ map Transport calls"
proof -
  from assms obtain a b where "tr1 = tr @ map Transport a" "tr2 = tr1 @ map Transport b" by blast
  then have "tr2 = tr @ map Transport (a @ b)" by simp
  then show ?thesis by blast
qed

lemma executeCommand_trace:
  "\<exists>calls. snd (executeCommand dev tr c) = tr @ map Transport calls"
  and "\<exists>calls. snd (executeCompositeCommand dev tr v) = tr @ map Transport calls"
  and "\<exists>calls. snd (composite_loop dev tr cs acc) = tr @ map Transport calls"
proof (induction dev tr c and dev tr v and dev tr cs acc
    rule: executeCommand_executeCompositeCommand_composite_loop.induct)
  case (1 dev tr command)
  show ?case
    using "1.IH" call_transport_trace trace_nil
    by (subst executeCommand.simps) (simp del: map_eq_conv)
next
  case (2 dev tr cmds)
  show ?case
  proof (cases cmds)
    case (JArr cs)
    then show ?thesis using "2.IH" trace_nil by (cases "cs = []") (simp_all add: executeCommand.simps)
  qed (simp_all add: executeCommand.simps trace_nil)
next
  case (3 dev tr pushed)
  then show ?case by (simp add: trace_nil)
next
  case (4 dev tr cmd rest pushed)
  obtain x tr' where x: "executeCommand dev tr cmd = (x, tr')" by (cases "executeCommand dev tr cmd")
  have a: "\<exists>calls. tr' = tr @ map Transport calls" using "4.IH"(1) x by simp
  show ?case
  proof (cases x)
    case (Inl e)
    with x a show ?thesis by simp
  next
    case (Inr r)
    have "\<exists>calls. snd (composite_loop dev tr' rest (pushed @ [r])) = tr' @ map Transport calls"
      using "4.IH"(2) x Inr by simp
    with a have "\<exists>calls. snd (composite_loop dev tr' rest (pushed @ [r])) = tr @ map Transport calls"
      using trace_trans by blast
    with x Inr show ?thesis by simp
  qed
qed

lemma frame_refl: "frame st st"
  by (simp add: frame_def)

lemma frame_trans:
  assumes "frame a b" and "frame b c"
  shows "frame a c"
proof -
  from assms(1) obtain evs1 where
    r1: "sessionContext b = sessionContext a" and l1: "length (heap a) \<le> length (heap b)"
    and k1: "\<forall>i < length (heap a). sessionContext a \<noteq> Some i \<longrightarrow> heap b ! i = heap a ! i"
    and t1: "trace b = trace a @ evs1"
    and h1: "filter is_inference evs1 = [] \<longrightarrow> heap b = heap a"
    and n1: "length (history_of (socket_context b))
               \<le> length (history_of (socket_context a)) + length (filter is_inference evs1)"
    unfolding frame_def by blast
  from assms(2) obtain evs2 where
    r2: "sessionContext c = sessionContext b" and l2: "length (heap b) \<le> length (heap c)"
    and k2: "\<forall>i < length (heap b). sessionContext b \<noteq> Some i \<longrightarrow> heap c ! i = heap b ! i"
    and t2: "trace c = trace b @ evs2"
    and h2: "filter is_inference evs2 = [] \<longrightarrow> heap c = heap b"
    and n2: "length (history_of (socket_context c))
               \<le> length (history_of (socket_context b)) + length (filter is_inference evs2)"
    unfolding frame_def by blast
  have "sessionContext c = sessionContext a" using r1 r2 by simp
  moreover have "length (heap a) \<le> length (heap c)" using l1 l2 by simp
  moreover have "\<forall>i < length (heap a). sessionContext a \<noteq> Some i \<longrightarrow> heap c ! i = heap a ! i"
    using k1 k2 l1 r1 by auto
  moreover have "trace c = trace a @ (evs1 @ evs2)" using t1 t2 by simp
  moreover have "filter is_inference (evs1 @ evs2) = [] \<longrightarrow> heap c = heap a"
    using h1 h2 by simp
  moreover have "length (history_of (socket_context c))
               \<le> length (history_of (socket_context a)) + length (filter is_inference (evs1 @ evs2))"
    using n1 n2 by simp
  ultimately show ?thesis unfolding frame_def by blast
qed

lemma frame_trace: "filter is_inference evs = [] \<Longrightarrow> frame st (st\<lparr>trace := trace st @ evs\<rparr>)"
  by (simp add: frame_def socket_context_def split: option.splits)

lemma frame_emit: "filter is_inference evs = [] \<Longrightarrow> frame st (emit evs st)"
  unfolding emit_def by (rule frame_trace)

lemma handleAIInstruction_trace:
  "trace (snd (handleAIInstruction e st opts)) =
     trace st @ [Inference (build_prompt opts (case o_instruction opts of None \<Rightarrow> [] | Some i \<Rightarrow> i)
                              (deref (heap st) (o_sessionContext opts)))]"
  by (simp add: handleAIInstruction_def Let_def emit_def split: sum.splits prod.splits option.splits)

lemma handleAIInstruction_ref:
  "sessionContext (snd (handleAIInstruction e st opts)) = sessionContext st"
  by (simp add: handleAIInstruction_def Let_def emit_def split: sum.splits prod.splits option.splits)

lemma context_arg_trace: "trace (snd (context_arg st)) = trace st"
  by (simp add: context_arg_def split: option.splits)

lemma context_arg_ref: "sessionContext (snd (context_arg st)) = sessionContext st"
  by (simp add: context_arg_def split: option.splits)

lemma context_arg_deref:
  "deref (heap (snd (context_arg st))) (fst (context_arg st)) = socket_context st"
  by (simp add: context_arg_def socket_context_def deref_def split: option.splits)

lemma updateSessionContext_grows:
  "length (history_of (snd (updateSessionContext ctx item now))) \<le> Suc (length (history_of ctx))"
  by (simp add: updateSessionContext_def history_of_def slice_last_def Let_def
      split: sum.splits option.splits)

lemma handleAIInstruction_store:
  "\<exists>ctx'. heap (snd (handleAIInstruction e st opts)) = (heap st)[o_sessionContext opts := ctx'] \<and>
          length (history_of ctx')
            \<le> Suc (length (history_of (deref (heap st) (o_sessionContext opts))))"
proof (cases "callLLMAPI e (trace st)
    (build_prompt opts (case o_instruction opts of None \<Rightarrow> [] | Some i \<Rightarrow> i)
       (deref (heap st) (o_sessionContext opts)))")
  case (Inl m)
  then have "heap (snd (handleAIInstruction e st opts))
      = (heap st)[o_sessionContext opts := deref (heap st) (o_sessionContext opts)]"
    by (simp add: handleAIInstruction_def Let_def emit_def deref_def list_update_beyond)
  then show ?thesis by (intro exI [of _ "deref (heap st) (o_sessionContext opts)"]) simp
next
  case (Inr reply)
  define item where "item = \<lparr>item_instruction =
                  (if (case o_instruction opts of None \<Rightarrow> [] | Some i \<Rightarrow> i) = []
                   then auto_correction
                   else (case o_instruction opts of None \<Rightarrow> [] | Some i \<Rightarrow> i)),
                item_screenshot = Some (screenshot_timestamp (o_snapshot opts)),
                item_uiElements = Some (ui_timestamp (o_snapshot opts)),
                item_parsedResponse = parseModelResponse reply\<rparr>"
  define now where "now = clock e (trace st @ [Inference
      (build_prompt opts (case o_instruction opts of None \<Rightarrow> [] | Some i \<Rightarrow> i)
         (deref (heap st) (o_sessionContext opts)))])"
  have "heap (snd (handleAIInstruction e st opts)) = (heap st)[o_sessionContext opts :=
        snd (updateSessionContext (deref (heap st) (o_sessionContext opts)) item now)]"
    using Inr
    by (auto simp: handleAIInstruction_def Let_def emit_def case_prod_beta item_def now_def
        split: option.splits)
  then show ?thesis
    using updateSessionContext_grows [of "deref (heap st) (o_sessionContext opts)" item now]
    by blast
qed

lemma frame_round:
  assumes "o_sessionContext opts = fst (context_arg st)"
  shows "frame st (snd (handleAIInstruction e (snd (context_arg st)) opts))"
proof -
  define st2 where "st2 = snd (context_arg st)"
  define a where "a = fst (context_arg st)"
  define st3 where "st3 = snd (handleAIInstruction e st2 opts)"
  obtain ctx' where hp: "heap st3 = (heap st2)[a := ctx']"
    and gr: "length (history_of ctx') \<le> Suc (length (history_of (deref (heap st2) a)))"
    using handleAIInstruction_store [of e st2 opts] assms unfolding st3_def a_def by auto
  have ref: "sessionContext st3 = sessionContext st"
    by (simp add: st3_def st2_def handleAIInstruction_ref context_arg_ref)
  have tr: "trace st3 = trace st @ [Inference (build_prompt opts
      (case o_instruction opts of None \<Rightarrow> [] | Some i \<Rightarrow> i) (deref (heap st2) (o_sessionContext opts)))]"
    by (simp add: st3_def st2_def handleAIInstruction_trace context_arg_trace)
  have d2: "deref (heap st2) a = socket_context st"
    unfolding st2_def a_def by (rule context_arg_deref)
  have len: "length (heap st) \<le> length (heap st3)"
    by (simp add: hp st2_def context_arg_def split: option.splits)
  have keep: "\<forall>i < length (heap st). sessionContext st \<noteq> Some i \<longrightarrow> heap st3 ! i = heap st ! i"
    by (auto simp: hp st2_def a_def context_arg_def nth_append split: option.splits)
  have sc: "length (history_of (socket_context st3)) \<le> Suc (length (history_of (socket_context st)))"
  proof (cases "sessionContext st")
    case None
    then show ?thesis by (simp add: socket_context_def ref)
  next
    case (Some b)
    then have "a = b" "heap st2 = heap st" by (simp_all add: a_def st2_def context_arg_def)
    then show ?thesis
      using gr d2 Some by (auto simp: socket_context_def ref hp deref_def)
  qed
  have "frame st st3"
    unfolding frame_def
  proof (intro conjI exI)
    show "sessionContext st3 = sessionContext st" by (rule ref)
    show "length (heap st) \<le> length (heap st3)" by (rule len)
    show "\<forall>i < length (heap st). sessionContext st \<noteq> Some i \<longrightarrow> heap st3 ! i = heap st ! i"
      by (rule keep)
    show "trace st3 = trace st @ [Inference (build_prompt opts
      (case o_instruction opts of None \<Rightarrow> [] | Some i \<Rightarrow> i) (deref (heap st2) (o_sessionContext opts)))]"
      by (rule tr)
    show "filter is_inference [Inference (build_prompt opts
      (case o_instruction opts of None \<Rightarrow> [] | Some i \<Rightarrow> i) (deref (heap st2) (o_sessionContext opts)))] = []
        \<longrightarrow> heap st3 = heap st"
      by (simp add: is_inference_def)
    show "length (history_of (socket_context st3))
        \<le> length (history_of (socket_context st)) + length (filter is_inference [Inference (build_prompt opts
      (case o_instruction opts of None \<Rightarrow> [] | Some i \<Rightarrow> i) (deref (heap st2) (o_sessionContext opts)))])"
      using sc by (simp add: is_inference_def)
  qed
  then show ?thesis by (simp add: st3_def st2_def)
qed

lemma single_command_shape:
  "executeAndHandleSingleCommand fuel e st c = Some (ok, st') \<Longrightarrow>
     frame st st' \<and> (\<exists>evs. trace st' = trace st @ evs \<and> single_run evs)"
  and "handleErrorCorrection fuel e st c msg = Some st' \<Longrightarrow>
     frame st st' \<and> (\<exists>evs. trace st' = trace st @ evs \<and> correction_run c msg evs)"
  and "correction_loop fuel e st cs = Some st' \<Longrightarrow>
     frame st st' \<and> (\<exists>evs. trace st' = trace st @ evs \<and> corrective_runs cs evs)"
proof (induction fuel e st c and fuel e st c msg and fuel e st cs arbitrary: ok st' and st' and st'
    rule: executeAndHandleSingleCommand_handleErrorCorrection_correction_loop.induct)
  case (1 fuel e st command)
  obtain x tr where x: "executeCommand (transport e) (trace st @ [CommandStart command]) (JObj command) = (x, tr)"
    by (cases "executeCommand (transport e) (trace st @ [CommandStart command]) (JObj command)")
  obtain calls where tr: "tr = trace st @ CommandStart command # map Transport calls"
    using executeCommand_trace(1) [of "transport e" "trace st @ [CommandStart command]" "JObj command"] x
    by auto
  have noinf: "filter is_inference (CommandStart command # map Transport calls @ [CommandOutcome command b m]) = []" for b m
    by (induction calls) (simp_all add: is_inference_def)
  show ?case
  proof (cases x)
    case (Inr r)
    with x "1.prems" have st': "st' = st\<lparr>trace := tr @ [CommandOutcome command True None]\<rparr>"
      by (simp add: executeAndHandleSingleCommand.simps)
    have "trace st' = trace st @ (CommandStart command # map Transport calls @ [CommandOutcome command True None])"
      by (simp add: st' tr)
    moreover have "frame st (st\<lparr>trace := trace st @ (CommandStart command # map Transport calls
                            @ [CommandOutcome command True None])\<rparr>)"
      by (rule frame_trace) (rule noinf)
    then have "frame st st'" by (simp add: st' tr)
    ultimately show ?thesis using single_run_correction_run_corrective_runs.dispatched by blast
  next
    case (Inl err)
    define st1 where "st1 = st\<lparr>trace := tr @ [CommandOutcome command False (Some (exec_message err))]\<rparr>"
    from x Inl "1.prems" have h: "handleErrorCorrection fuel e st1 command (exec_message err) = Some st'"
      by (simp add: executeAndHandleSingleCommand.simps st1_def split: option.splits)
    from "1.IH" [OF x [symmetric] Inl h [unfolded st1_def]]
    obtain evs where f: "frame st1 st'" and evs: "trace st' = trace st1 @ evs" "correction_run command (exec_message err) evs"
      unfolding st1_def by blast
    have "frame st (st\<lparr>trace := trace st @ (CommandStart command # map Transport calls
                            @ [CommandOutcome command False (Some (exec_message err))])\<rparr>)"
      by (rule frame_trace) (rule noinf)
    then have "frame st st1" by (simp add: st1_def tr)
    with f have "frame st st'" using frame_trans by blast
    moreover have "trace st' = trace st @ (CommandStart command # map Transport calls
                       @ CommandOutcome command False (Some (exec_message err)) # evs)"
      using evs(1) by (simp add: st1_def tr)
    ultimately show ?thesis
      using single_run_correction_run_corrective_runs.corrected [OF evs(2)] by blast
  qed
next
  case (2 e st command msg)
  then show ?case by (simp add: handleErrorCorrection.simps)
next
  case (3 fuel e st command msg)
  show ?case
  proof (cases "capture e (trace st)")
    case (Inl m)
    with "3.prems" have st': "st' = emit [ErrorNotice CorrectionHandler m] (emit [Capture] st)"
      by (simp add: handleErrorCorrection.simps getCurrentScreenState_def)
    have "frame st st'" unfolding st' emit_def
      using frame_trace [of "[Capture, ErrorNotice CorrectionHandler m]" st]
      by (simp add: is_inference_def)
    moreover have "trace st' = trace st @ [Capture, ErrorNotice CorrectionHandler m]"
      by (simp add: st' emit_def)
    ultimately show ?thesis
      using single_run_correction_run_corrective_runs.capture_failed by blast
  next
    case (Inr snap)
    define st1 where "st1 = emit [ErrorCorrectionStart] (emit [Capture] st)"
    define opts where "opts = \<lparr>o_instruction = None, o_snapshot = snap,
                   o_sessionContext = fst (context_arg st1),
                   o_isErrorCorrection = True, o_error = Some (command, msg),
                   o_isContinuation = False, o_previousCommand = None\<rparr>"
    obtain xb yb where hai: "handleAIInstruction e (snd (context_arg st1)) opts = (xb, yb)"
      by (cases "handleAIInstruction e (snd (context_arg st1)) opts")
    have f1: "frame st st1"
      unfolding st1_def emit_def using frame_trace [of "[Capture, ErrorCorrectionStart]" st]
      by (simp add: is_inference_def)
    have f2: "frame st1 yb" using frame_round [of opts st1 e] hai by (simp add: opts_def)
    have tyb: "trace yb = trace st @ [Capture, ErrorCorrectionStart,
        Inference (ErrorCorrectionPrompt command msg (slice_last 1 (history_of (socket_context st1))))]"
      using handleAIInstruction_trace [of e "snd (context_arg st1)" opts] hai
      by (simp add: context_arg_trace context_arg_deref opts_def build_prompt_def st1_def emit_def)
    show ?thesis
    proof (cases xb)
      case (Inl m)
      with "3.prems" Inr hai have st': "st' = emit [ErrorNotice CorrectionHandler m] yb"
        by (simp add: handleErrorCorrection.simps getCurrentScreenState_def st1_def opts_def
            split: prod.splits)
      have "frame yb st'" unfolding st' by (rule frame_emit) (simp add: is_inference_def)
      with f1 f2 have "frame st st'" using frame_trans by blast
      moreover have "trace st' = trace st @ [Capture, ErrorCorrectionStart,
        Inference (ErrorCorrectionPrompt command msg (slice_last 1 (history_of (socket_context st1)))),
        ErrorNotice CorrectionHandler m]"
        by (simp add: st' emit_def tyb)
      ultimately show ?thesis
        using single_run_correction_run_corrective_runs.round_failed by blast
    next
      case (Inr correction)
      from "3.prems" \<open>capture e (trace st) = Inr snap\<close> hai Inr
      obtain st4 where loop: "correction_loop fuel e yb (commands correction) = Some st4"
        and st': "st' = emit [ErrorCorrectionEnd correction] st4"
        by (auto simp: handleErrorCorrection.simps getCurrentScreenState_def st1_def opts_def
            split: prod.splits option.splits)
      have "frame yb st4 \<and> (\<exists>evs. trace st4 = trace yb @ evs \<and> corrective_runs (commands correction) evs)"
      proof (rule "3.IH" [OF _ _ _ _ _ loop])
        show "(capture e (trace st), emit [Capture] st) = getCurrentScreenState e st"
          by (simp add: getCurrentScreenState_def)
        show "capture e (trace st) = Inr snap" by fact
        show "(fst (context_arg st1), snd (context_arg st1)) = context_arg (emit [ErrorCorrectionStart] (emit [Capture] st))"
          by (simp add: st1_def)
        show "(xb, yb) = handleAIInstruction e (snd (context_arg st1))
            \<lparr>o_instruction = None, o_snapshot = snap, o_sessionContext = fst (context_arg st1),
               o_isErrorCorrection = True, o_error = Some (command, msg),
               o_isContinuation = False, o_previousCommand = None\<rparr>"
          using hai by (simp add: opts_def)
        show "xb = Inr correction" by fact
      qed
      then obtain evs where f3: "frame yb st4" and evs: "trace st4 = trace yb @ evs"
          "corrective_runs (commands correction) evs" by blast
      have "frame st4 st'" unfolding st' by (rule frame_emit) (simp add: is_inference_def)
      with f1 f2 f3 have "frame st st'" using frame_trans by blast
      moreover have "trace st' = trace st @ ([Capture, ErrorCorrectionStart,
        Inference (ErrorCorrectionPrompt command msg (slice_last 1 (history_of (socket_context st1))))]
        @ evs @ [ErrorCorrectionEnd correction])"
        by (simp add: st' emit_def evs(1) tyb)
      ultimately show ?thesis
        using single_run_correction_run_corrective_runs.round_done [OF evs(2)] by blast
    qed
  qed
next
  case (4 fuel e st)
  then show ?case
    using single_run_correction_run_corrective_runs.no_more by (auto simp: frame_refl)
next
  case (5 fuel e st correctionCommand rest)
  from "5.prems" obtain r st1 where one: "executeAndHandleSingleCommand fuel e st correctionCommand = Some (r, st1)"
    and rest: "correction_loop fuel e st1 rest = Some st'"
    by (auto split: option.splits)
  from "5.IH"(1) [OF one] obtain evs where f1: "frame st st1" and evs: "trace st1 = trace st @ evs" "single_run evs"
    by blast
  from "5.IH"(2) [OF one _ rest] obtain evs' where f2: "frame st1 st'"
    and evs': "trace st' = trace st1 @ evs'" "corrective_runs rest evs'"
    by auto
  have "frame st st'" using f1 f2 frame_trans by blast
  moreover have "trace st' = trace st @ (evs @ evs')" by (simp add: evs(1) evs'(1))
  ultimately show ?case
    using single_run_correction_run_corrective_runs.one_more [OF evs(2) evs'(2)] by blast
qed

lemma handleAIInstruction_throws:
  "callLLMAPI e (trace st) (build_prompt opts (case o_instruction opts of None \<Rightarrow> [] | Some i \<Rightarrow> i)
        (deref (heap st) (o_sessionContext opts))) = Inl m
   \<Longrightarrow> fst (handleAIInstruction e st opts) = Inl m"
  by (simp add: handleAIInstruction_def Let_def)

lemma handleAIInstruction_returns:
  "callLLMAPI e (trace st) (build_prompt opts (case o_instruction opts of None \<Rightarrow> [] | Some i \<Rightarrow> i)
        (deref (heap st) (o_sessionContext opts))) = Inr reply
   \<Longrightarrow> thinking (parseModelResponse reply) = JStr s
   \<Longrightarrow> fst (handleAIInstruction e st opts) = Inr (parseModelResponse reply)"
  by (simp add: handleAIInstruction_def Let_def updateSessionContext_def simplifiedResponse_def
      split: prod.splits)

lemma correction_prompt:
  "build_prompt \<lparr>o_instruction = None, o_snapshot = snap, o_sessionContext = a,
                 o_isErrorCorrection = True, o_error = Some (c, msg),
                 o_isContinuation = False, o_previousCommand = None\<rparr> [] ctx
     = ErrorCorrectionPrompt c msg (slice_last 1 (history_of ctx))"
  by (simp add: build_prompt_def)

lemma correction_unfold:
  fixes c :: jobj and msg :: string and fuel :: nat
  assumes cap: "capture e (trace st1) = Inr snap"
  defines "st2 \<equiv> snd (context_arg (emit [ErrorCorrectionStart] (emit [Capture] st1)))"
  defines "opts \<equiv> \<lparr>o_instruction = None, o_snapshot = snap,
                   o_sessionContext = fst (context_arg (emit [ErrorCorrectionStart] (emit [Capture] st1))),
                   o_isErrorCorrection = True, o_error = Some (c, msg),
                   o_isContinuation = False, o_previousCommand = None\<rparr>"
  shows "handleErrorCorrection (Suc fuel) e st1 c msg =
         (case handleAIInstruction e st2 opts of
            (Inl m, st3) \<Rightarrow> Some (emit [ErrorNotice CorrectionHandler m] st3)
          | (Inr correction, st3) \<Rightarrow>
              (case correction_loop fuel e st3 (commands correction) of
                 None \<Rightarrow> None
               | Some st4 \<Rightarrow> Some (emit [ErrorCorrectionEnd correction] st4)))"
  using cap
  by (simp add: handleErrorCorrection.simps getCurrentScreenState_def st2_def opts_def
      split: prod.splits)

lemma fuel_step:
  "executeAndHandleSingleCommand fuel e st c = Some r \<Longrightarrow>
     executeAndHandleSingleCommand (Suc fuel) e st c = Some r"
  and "handleErrorCorrection fuel e st c msg = Some st' \<Longrightarrow>
     handleErrorCorrection (Suc fuel) e st c msg = Some st'"
  and "correction_loop fuel e st cs = Some st' \<Longrightarrow>
     correction_loop (Suc fuel) e st cs = Some st'"
proof (induction fuel e st c and fuel e st c msg and fuel e st cs arbitrary: r and st' and st'
    rule: executeAndHandleSingleCommand_handleErrorCorrection_correction_loop.induct)
  case (1 fuel e st command)
  show ?case
  proof (cases "executeCommand (transport e) (trace st @ [CommandStart command]) (JObj command)")
    case (Pair x tr)
    show ?thesis
    proof (cases x)
      case (Inr res)
      with Pair "1.prems" show ?thesis by (simp add: executeAndHandleSingleCommand.simps)
    next
      case (Inl err)
      with Pair "1.prems" obtain s' where
        h: "handleErrorCorrection fuel e
              (st\<lparr>trace := tr @ [CommandOutcome command False (Some (exec_message err))]\<rparr>)
              command (exec_message err) = Some s'" and r: "r = (False, s')"
        by (auto simp: executeAndHandleSingleCommand.simps split: option.splits)
      from "1.IH" [OF Pair [symmetric] Inl h] Pair Inl r show ?thesis
        by (simp add: executeAndHandleSingleCommand.simps)
    qed
  qed
next
  case (2 e st command msg)
  then show ?case by (simp add: handleErrorCorrection.simps)
next
  case (3 fuel e st command msg)
  show ?case
  proof (cases "capture e (trace st)")
    case (Inl m)
    with "3.prems" show ?thesis
      by (simp add: handleErrorCorrection.simps getCurrentScreenState_def)
  next
    case (Inr snap)
    define st1 where "st1 = emit [ErrorCorrectionStart] (emit [Capture] st)"
    define opts where "opts = \<lparr>o_instruction = None, o_snapshot = snap,
                   o_sessionContext = fst (context_arg st1),
                   o_isErrorCorrection = True, o_error = Some (command, msg),
                   o_isContinuation = False, o_previousCommand = None\<rparr>"
    obtain xb yb where hai: "handleAIInstruction e (snd (context_arg st1)) opts = (xb, yb)"
      by (cases "handleAIInstruction e (snd (context_arg st1)) opts")
    have cap: "capture e (trace st) = Inr snap" by fact
    note U = correction_unfold [OF cap, of _ command msg, folded st1_def, folded opts_def]
    show ?thesis
    proof (cases xb)
      case (Inl m)
      with "3.prems" hai show ?thesis by (simp add: U)
    next
      case (Inr correction)
      with "3.prems" hai obtain st4 where
        loop: "correction_loop fuel e yb (commands correction) = Some st4"
        and st': "st' = emit [ErrorCorrectionEnd correction] st4"
        by (auto simp: U split: option.splits)
      have "correction_loop (Suc fuel) e yb (commands correction) = Some st4"
      proof (rule "3.IH" [OF _ _ _ _ _ loop])
        show "(capture e (trace st), emit [Capture] st) = getCurrentScreenState e st"
          by (simp add: getCurrentScreenState_def)
        show "capture e (trace st) = Inr snap" by fact
        show "(fst (context_arg st1), snd (context_arg st1)) = context_arg (emit [ErrorCorrectionStart] (emit [Capture] st))"
          by (simp add: st1_def)
        show "(xb, yb) = handleAIInstruction e (snd (context_arg st1))
            \<lparr>o_instruction = None, o_snapshot = snap, o_sessionContext = fst (context_arg st1),
               o_isErrorCorrection = True, o_error = Some (command, msg),
               o_isContinuation = False, o_previousCommand = None\<rparr>"
          using hai by (simp add: opts_def)
        show "xb = Inr correction" by fact
      qed
      with hai Inr st' show ?thesis by (simp add: U)
    qed
  qed
next
  case (4 fuel e st)
  then show ?case by simp
next
  case (5 fuel e st correctionCommand rest)
  from "5.prems" obtain r st1 where one: "executeAndHandleSingleCommand fuel e st correctionCommand = Some (r, st1)"
    and rest: "correction_loop fuel e st1 rest = Some st'"
    by (auto split: option.splits)
  from "5.IH"(1) [OF one] have "executeAndHandleSingleCommand (Suc fuel) e st correctionCommand = Some (r, st1)" .
  moreover from "5.IH"(2) [OF one _ rest] have "correction_loop (Suc fuel) e st1 rest = Some st'" by simp
  ultimately show ?case by simp
qed

lemma more_fuel:
  "executeAndHandleSingleCommand n e st c = Some r \<Longrightarrow>
     executeAndHandleSingleCommand (n + k) e st c = Some r"
  by (induction k) (simp_all add: fuel_step(1))

lemma handleAIInstruction_type_error:
  "callLLMAPI e (trace st) (build_prompt opts (case o_instruction opts of None \<Rightarrow> [] | Some i \<Rightarrow> i)
        (deref (heap st) (o_sessionContext opts))) = Inr reply
   \<Longrightarrow> \<forall>s. thinking (parseModelResponse reply) \<noteq> JStr s
   \<Longrightarrow> fst (handleAIInstruction e st opts) = Inl ''TypeError''"
  by (cases "thinking (parseModelResponse reply)")
     (simp_all add: handleAIInstruction_def Let_def updateSessionContext_def
        simplifiedResponse_def exn_message_def split: prod.splits)

lemma correction_loop_dispatch_all:
  "dispatch_all (transport e) (trace st) cs = Some tr' \<Longrightarrow>
   correction_loop fuel e st cs = Some (st\<lparr>trace := tr'\<rparr>)"
proof (induction cs arbitrary: st)
  case Nil
  then show ?case by simp
next
  case (Cons c cs)
  from Cons.prems obtain r t1 where
    d: "executeCommand (transport e) (trace st @ [CommandStart c]) (JObj c) = (Inr r, t1)"
    and rest: "dispatch_all (transport e) (t1 @ [CommandOutcome c True None]) cs = Some tr'"
    by (auto split: prod.splits sum.splits)
  have one: "executeAndHandleSingleCommand fuel e st c
      = Some (True, st\<lparr>trace := t1 @ [CommandOutcome c True None]\<rparr>)"
    using d by (simp add: executeAndHandleSingleCommand.simps)
  have "correction_loop fuel e (st\<lparr>trace := t1 @ [CommandOutcome c True None]\<rparr>) cs
      = Some (st\<lparr>trace := t1 @ [CommandOutcome c True None]\<rparr>\<lparr>trace := tr'\<rparr>)"
    by (rule Cons.IH) (simp add: rest)
  with one show ?case by simp
qed

text \<open>
  Claim C7, as the code has it. Let the dispatch of a command throw. Then the command
  is reported as failed with the message of the exception, and one error correction
  follows, for that command and that message. If its capture throws, if its model call
  throws, or if the update of the history after the model call throws (the reply's
  \<^verbatim>\<open>thinking\<close> is not a string), the exception is reported by one error notice and
  nothing else happens: no retry, no transport call. If the model answers with no
  corrective command, the round ends with its end notice and no transport call. If it
  answers with corrective commands whose dispatches all succeed, they are executed in
  order and the round ends with its end notice. In all these cases the call returns
  with one unit of fuel. A corrective command whose dispatch throws goes the way of
  any failed dispatch. Whenever a run returns, with some amount of fuel, it returns the
  same with any larger amount, and its events have the shape \<^const>\<open>single_run\<close>, in
  which each failed dispatch, also that of a corrective command, is followed by
  exactly one correction round of its own.
\<close>

theorem error_correction_once_per_failure:
  fixes c :: jobj
  assumes fail: "executeCommand (transport e) (trace st @ [CommandStart c]) (JObj c) = (Inl err, tr)"
  defines "msg \<equiv> exec_message err"
  defines "tr1 \<equiv> tr @ [CommandOutcome c False (Some (exec_message err))]"
  defines "p \<equiv> ErrorCorrectionPrompt c (exec_message err) (slice_last 1 (history_of (socket_context st)))"
  shows "(capture e tr1 = Inl m \<longrightarrow>
            map_option (\<lambda>(ok, s). (ok, trace s)) (executeAndHandleSingleCommand (Suc fuel) e st c)
              = Some (False, tr1 @ [Capture, ErrorNotice CorrectionHandler m])) \<and>
         (capture e tr1 = Inr snap \<and> callLLMAPI e (tr1 @ [Capture, ErrorCorrectionStart]) p = Inl m \<longrightarrow>
            map_option (\<lambda>(ok, s). (ok, trace s)) (executeAndHandleSingleCommand (Suc fuel) e st c)
              = Some (False, tr1 @ [Capture, ErrorCorrectionStart, Inference p,
                                    ErrorNotice CorrectionHandler m])) \<and>
         (capture e tr1 = Inr snap \<and> callLLMAPI e (tr1 @ [Capture, ErrorCorrectionStart]) p = Inr reply
            \<and> (\<forall>s. thinking (parseModelResponse reply) \<noteq> JStr s) \<longrightarrow>
            map_option (\<lambda>(ok, s). (ok, trace s)) (executeAndHandleSingleCommand (Suc fuel) e st c)
              = Some (False, tr1 @ [Capture, ErrorCorrectionStart, Inference p,
                                    ErrorNotice CorrectionHandler ''TypeError''])) \<and>
         (capture e tr1 = Inr snap \<and> callLLMAPI e (tr1 @ [Capture, ErrorCorrectionStart]) p = Inr reply
            \<and> commands (parseModelResponse reply) = [] \<and> thinking (parseModelResponse reply) = JStr s \<longrightarrow>
            map_option (\<lambda>(ok, s). (ok, trace s)) (executeAndHandleSingleCommand (Suc fuel) e st c)
              = Some (False, tr1 @ [Capture, ErrorCorrectionStart, Inference p,
                                    ErrorCorrectionEnd (parseModelResponse reply)])) \<and>
         (capture e tr1 = Inr snap \<and> callLLMAPI e (tr1 @ [Capture, ErrorCorrectionStart]) p = Inr reply
            \<and> thinking (parseModelResponse reply) = JStr s
            \<and> dispatch_all (transport e) (tr1 @ [Capture, ErrorCorrectionStart, Inference p])
                 (commands (parseModelResponse reply)) = Some tr2 \<longrightarrow>
            map_option (\<lambda>(ok, s). (ok, trace s)) (executeAndHandleSingleCommand (Suc fuel) e st c)
              = Some (False, tr2 @ [ErrorCorrectionEnd (parseModelResponse reply)])) \<and>
         (executeAndHandleSingleCommand n e st c = Some (ok, st') \<longrightarrow>
            (\<forall>k. executeAndHandleSingleCommand (n + k) e st c = Some (ok, st')) \<and>
            (\<exists>evs. trace st' = trace st @ evs \<and> single_run evs))"
proof -
  define st1 where "st1 = st\<lparr>trace := tr1\<rparr>"
  have unfold1: "executeAndHandleSingleCommand (Suc fuel) e st c =
      (case handleErrorCorrection (Suc fuel) e st1 c msg of None \<Rightarrow> None | Some s' \<Rightarrow> Some (False, s'))"
    using fail by (simp add: executeAndHandleSingleCommand.simps st1_def tr1_def msg_def)
  have tst1: "trace st1 = tr1" by (simp add: st1_def)
  define st2 where "st2 = snd (context_arg (emit [ErrorCorrectionStart] (emit [Capture] st1)))"
  define opts where "opts = \<lparr>o_instruction = None, o_snapshot = snap,
                   o_sessionContext = fst (context_arg (emit [ErrorCorrectionStart] (emit [Capture] st1))),
                   o_isErrorCorrection = True, o_error = Some (c, msg),
                   o_isContinuation = False, o_previousCommand = None\<rparr>"
  have tst2: "trace st2 = tr1 @ [Capture, ErrorCorrectionStart]"
    by (simp add: st2_def context_arg_trace emit_def tst1)
  have sc: "socket_context (emit [ErrorCorrectionStart] (emit [Capture] st1)) = socket_context st"
    by (simp add: socket_context_def emit_def st1_def split: option.splits)
  have bp: "build_prompt opts (case o_instruction opts of None \<Rightarrow> [] | Some i \<Rightarrow> i)
                (deref (heap st2) (o_sessionContext opts)) = p"
    unfolding st2_def opts_def
    by (simp add: context_arg_deref sc correction_prompt p_def msg_def)
  have thai: "trace (snd (handleAIInstruction e st2 opts)) = tr1 @ [Capture, ErrorCorrectionStart, Inference p]"
    using handleAIInstruction_trace [of e st2 opts] by (simp add: bp tst2)
  obtain x st3 where h: "handleAIInstruction e st2 opts = (x, st3)"
    by (cases "handleAIInstruction e st2 opts")
  have t3: "trace st3 = tr1 @ [Capture, ErrorCorrectionStart, Inference p]"
    using thai h by simp
  have round: "handleErrorCorrection (Suc fuel) e st1 c msg =
         (case handleAIInstruction e st2 opts of
            (Inl m, st3) \<Rightarrow> Some (emit [ErrorNotice CorrectionHandler m] st3)
          | (Inr correction, st3) \<Rightarrow>
              (case correction_loop fuel e st3 (commands correction) of
                 None \<Rightarrow> None
               | Some st4 \<Rightarrow> Some (emit [ErrorCorrectionEnd correction] st4)))"
    if "capture e tr1 = Inr snap"
  proof -
    from that have cap: "capture e (trace st1) = Inr snap" by (simp add: tst1)
    show ?thesis unfolding st2_def opts_def by (rule correction_unfold [OF cap])
  qed
  show ?thesis
  proof (intro conjI impI)
    assume "capture e tr1 = Inl m"
    then have "handleErrorCorrection (Suc fuel) e st1 c msg
        = Some (emit [ErrorNotice CorrectionHandler m] (emit [Capture] st1))"
      by (simp add: handleErrorCorrection.simps getCurrentScreenState_def tst1)
    then show "map_option (\<lambda>(ok, s). (ok, trace s)) (executeAndHandleSingleCommand (Suc fuel) e st c)
              = Some (False, tr1 @ [Capture, ErrorNotice CorrectionHandler m])"
      by (simp add: unfold1 emit_def tst1)
  next
    assume a: "capture e tr1 = Inr snap \<and> callLLMAPI e (tr1 @ [Capture, ErrorCorrectionStart]) p = Inl m"
    have "x = Inl m"
      using handleAIInstruction_throws [of e st2 opts m] a h by (simp add: bp tst2)
    then have "handleErrorCorrection (Suc fuel) e st1 c msg
        = Some (emit [ErrorNotice CorrectionHandler m] st3)"
      using h a round by simp
    then show "map_option (\<lambda>(ok, s). (ok, trace s)) (executeAndHandleSingleCommand (Suc fuel) e st c)
              = Some (False, tr1 @ [Capture, ErrorCorrectionStart, Inference p,
                                    ErrorNotice CorrectionHandler m])"
      using t3 by (simp add: unfold1 emit_def)
  next
    assume a: "capture e tr1 = Inr snap \<and> callLLMAPI e (tr1 @ [Capture, ErrorCorrectionStart]) p = Inr reply
            \<and> (\<forall>s. thinking (parseModelResponse reply) \<noteq> JStr s)"
    have "x = Inl ''TypeError''"
      using handleAIInstruction_type_error [of e st2 opts reply] a h by (simp add: bp tst2)
    then have "handleErrorCorrection (Suc fuel) e st1 c msg
        = Some (emit [ErrorNotice CorrectionHandler ''TypeError''] st3)"
      using h a round by simp
    then show "map_option (\<lambda>(ok, s). (ok, trace s)) (executeAndHandleSingleCommand (Suc fuel) e st c)
              = Some (False, tr1 @ [Capture, ErrorCorrectionStart, Inference p,
                                    ErrorNotice CorrectionHandler ''TypeError''])"
      using t3 by (simp add: unfold1 emit_def)
  next
    assume a: "capture e tr1 = Inr snap \<and> callLLMAPI e (tr1 @ [Capture, ErrorCorrectionStart]) p = Inr reply
            \<and> commands (parseModelResponse reply) = [] \<and> thinking (parseModelResponse reply) = JStr s"
    have "x = Inr (parseModelResponse reply)"
      using handleAIInstruction_returns [of e st2 opts reply s] a h by (simp add: bp tst2)
    then have "handleErrorCorrection (Suc fuel) e st1 c msg
        = Some (emit [ErrorCorrectionEnd (parseModelResponse reply)] st3)"
      using h a round by simp
    then show "map_option (\<lambda>(ok, s). (ok, trace s)) (executeAndHandleSingleCommand (Suc fuel) e st c)
              = Some (False, tr1 @ [Capture, ErrorCorrectionStart, Inference p,
                                    ErrorCorrectionEnd (parseModelResponse reply)])"
      using t3 by (simp add: unfold1 emit_def)
  next
    assume a: "capture e tr1 = Inr snap \<and> callLLMAPI e (tr1 @ [Capture, ErrorCorrectionStart]) p = Inr reply
            \<and> thinking (parseModelResponse reply) = JStr s
            \<and> dispatch_all (transport e) (tr1 @ [Capture, ErrorCorrectionStart, Inference p])
                 (commands (parseModelResponse reply)) = Some tr2"
    have "x = Inr (parseModelResponse reply)"
      using handleAIInstruction_returns [of e st2 opts reply s] a h by (simp add: bp tst2)
    moreover have "correction_loop fuel e st3 (commands (parseModelResponse reply))
        = Some (st3\<lparr>trace := tr2\<rparr>)"
      using a by (intro correction_loop_dispatch_all) (simp add: t3)
    ultimately have "handleErrorCorrection (Suc fuel) e st1 c msg
        = Some (emit [ErrorCorrectionEnd (parseModelResponse reply)] (st3\<lparr>trace := tr2\<rparr>))"
      using h a round by simp
    then show "map_option (\<lambda>(ok, s). (ok, trace s)) (executeAndHandleSingleCommand (Suc fuel) e st c)
              = Some (False, tr2 @ [ErrorCorrectionEnd (parseModelResponse reply)])"
      by (simp add: unfold1 emit_def)
  next
    assume "executeAndHandleSingleCommand n e st c = Some (ok, st')"
    then show "\<forall>k. executeAndHandleSingleCommand (n + k) e st c = Some (ok, st')"
      using more_fuel by blast
  next
    assume "executeAndHandleSingleCommand n e st c = Some (ok, st')"
    then show "\<exists>evs. trace st' = trace st @ evs \<and> single_run evs"
      using single_command_shape(1) by blast
  qed
qed

text \<open>
  The claim at a tap on a device that is offline, with a model that proposes no
  corrective command.
\<close>

theorem error_correction_once_per_failure_witness:
  "map_option (\<lambda>(ok, s). (ok, trace s))
     (executeAndHandleSingleCommand 1 offline_env ready_socket first_tap)
   = Some (False,
       [CommandStart first_tap, Transport (Tap (JNum 1) (JNum 2)),
        CommandOutcome first_tap False (Some ''device offline''),
        Capture, ErrorCorrectionStart,
        Inference (ErrorCorrectionPrompt first_tap ''device offline'' []),
        ErrorCorrectionEnd (parseModelResponse reply_none)])
   \<and> single_run
       [CommandStart first_tap, Transport (Tap (JNum 1) (JNum 2)),
        CommandOutcome first_tap False (Some ''device offline''),
        Capture, ErrorCorrectionStart,
        Inference (ErrorCorrectionPrompt first_tap ''device offline'' []),
        ErrorCorrectionEnd (parseModelResponse reply_none)]"
proof -
  have fail: "executeCommand (transport offline_env) (trace ready_socket @ [CommandStart first_tap])
      (JObj first_tap)
    = (Inl (TransportFailure ''device offline''),
       [CommandStart first_tap, Transport (Tap (JNum 1) (JNum 2))])"
    by (simp add: executeCommand.simps offline_env_def ready_socket_def first_tap_def get_def
        call_transport_def)
  have r: "commands (parseModelResponse reply_none) = []
         \<and> thinking (parseModelResponse reply_none) = JStr ''done''"
    by (simp add: reply_none_def parseModelResponse_def from_parsed_def clean_response_def
        get_def mark_last_def)
  have h: "slice_last (Suc 0) (history_of (socket_context ready_socket)) = []"
    by (simp add: socket_context_def ready_socket_def deref_def history_of_def slice_last_def)
  have run: "map_option (\<lambda>(ok, s). (ok, trace s))
     (executeAndHandleSingleCommand 1 offline_env ready_socket first_tap)
   = Some (False,
       [CommandStart first_tap, Transport (Tap (JNum 1) (JNum 2)),
        CommandOutcome first_tap False (Some ''device offline''),
        Capture, ErrorCorrectionStart,
        Inference (ErrorCorrectionPrompt first_tap ''device offline'' []),
        ErrorCorrectionEnd (parseModelResponse reply_none)])"
    using error_correction_once_per_failure
        [OF fail, where snap = snap0 and reply = reply_none and s = "''done''" and fuel = 0
           and n = 0 and ok = True and st' = ready_socket
           and ?tr2.0 = "[CommandStart first_tap, Transport (Tap (JNum 1) (JNum 2)),
              CommandOutcome first_tap False (Some ''device offline''),
              Capture, ErrorCorrectionStart,
              Inference (ErrorCorrectionPrompt first_tap ''device offline'' [])]"] r
    by (simp add: h exec_message_def offline_env_def)
  then obtain st' where
    ret: "executeAndHandleSingleCommand 1 offline_env ready_socket first_tap = Some (False, st')"
    and tr: "trace st' =
       [CommandStart first_tap, Transport (Tap (JNum 1) (JNum 2)),
        CommandOutcome first_tap False (Some ''device offline''),
        Capture, ErrorCorrectionStart,
        Inference (ErrorCorrectionPrompt first_tap ''device offline'' []),
        ErrorCorrectionEnd (parseModelResponse reply_none)]"
    by auto
  have "\<exists>evs. trace st' = trace ready_socket @ evs \<and> single_run evs"
    using error_correction_once_per_failure
        [OF fail, where n = 1 and ok = False and st' = st'] ret
    by blast
  then have "single_run (trace st')" by (auto simp: ready_socket_def)
  with run tr show ?thesis by simp
qed

lemma silent_reply:
  "commands (parseModelResponse reply_none) = []"
  "thinking (parseModelResponse reply_none) = JStr ''done''"
  by (simp_all add: reply_none_def parseModelResponse_def from_parsed_def clean_response_def
      get_def mark_last_def)

lemma stubborn_reply:
  "commands (parseModelResponse reply_one_tap) = [corrective_tap]"
  "thinking (parseModelResponse reply_one_tap) = JStr ''tap it''"
  "result (parseModelResponse reply_one_tap) = JUndefined"
  "isTaskComplete (parseModelResponse reply_one_tap) = JUndefined"
  by (simp_all add: reply_one_tap_def parseModelResponse_def from_parsed_def clean_response_def
      normalizeCommand_def repair_action_def repair_tap_def repair_swipe_def default_flags_def
      mark_last_def get_def put_def del_def is_pair_def Let_def corrective_tap_def)

lemma never_recovers:
  "get c ''type'' = JStr ''tap'' \<Longrightarrow> executeAndHandleSingleCommand fuel stubborn_env st c = None"
proof (induction fuel arbitrary: st c)
  case 0
  then show ?case
    by (simp add: executeAndHandleSingleCommand.simps executeCommand.simps call_transport_def
        stubborn_env_def handleErrorCorrection.simps)
next
  case (Suc fuel)
  define tr1 where "tr1 = trace st @ [CommandStart c, Transport (Tap (get c ''x'') (get c ''y'')),
      CommandOutcome c False (Some ''device offline'')]"
  define st1 where "st1 = st\<lparr>trace := tr1\<rparr>"
  have one: "executeAndHandleSingleCommand (Suc fuel) stubborn_env st c =
      (case handleErrorCorrection (Suc fuel) stubborn_env st1 c ''device offline'' of
         None \<Rightarrow> None | Some s' \<Rightarrow> Some (False, s'))"
    using Suc.prems
    by (simp add: executeAndHandleSingleCommand.simps executeCommand.simps call_transport_def
        stubborn_env_def exec_message_def st1_def tr1_def)
  have cap: "capture stubborn_env (trace st1) = Inr snap0" by (simp add: stubborn_env_def)
  define st2 where "st2 = snd (context_arg (emit [ErrorCorrectionStart] (emit [Capture] st1)))"
  define opts where "opts = \<lparr>o_instruction = None, o_snapshot = snap0,
                   o_sessionContext = fst (context_arg (emit [ErrorCorrectionStart] (emit [Capture] st1))),
                   o_isErrorCorrection = True, o_error = Some (c, ''device offline''),
                   o_isContinuation = False, o_previousCommand = None\<rparr>"
  obtain x st3 where h: "handleAIInstruction stubborn_env st2 opts = (x, st3)"
    by (cases "handleAIInstruction stubborn_env st2 opts")
  have "fst (handleAIInstruction stubborn_env st2 opts) = Inr (parseModelResponse reply_one_tap)"
    by (rule handleAIInstruction_returns [where s = "''tap it''"])
       (simp_all add: stubborn_env_def stubborn_reply)
  with h have x: "x = Inr (parseModelResponse reply_one_tap)" by simp
  have "handleErrorCorrection (Suc fuel) stubborn_env st1 c ''device offline'' =
         (case handleAIInstruction stubborn_env st2 opts of
            (Inl m, st3) \<Rightarrow> Some (emit [ErrorNotice CorrectionHandler m] st3)
          | (Inr correction, st3) \<Rightarrow>
              (case correction_loop fuel stubborn_env st3 (commands correction) of
                 None \<Rightarrow> None
               | Some st4 \<Rightarrow> Some (emit [ErrorCorrectionEnd correction] st4)))"
    unfolding st2_def opts_def by (rule correction_unfold [OF cap])
  also have "\<dots> = (case correction_loop fuel stubborn_env st3 [corrective_tap] of
                 None \<Rightarrow> None
               | Some st4 \<Rightarrow> Some (emit [ErrorCorrectionEnd (parseModelResponse reply_one_tap)] st4))"
    by (simp add: h x stubborn_reply)
  also have "\<dots> = None"
    using Suc.IH [of corrective_tap st3] by (simp add: corrective_tap_def get_def)
  finally show ?case by (simp add: one)
qed

text \<open>
  Claim C7 as stated fails in its middle part: the correction is not a single attempt.
  On a device that is offline, let the model answer the correction of a failed tap
  with another tap, and the correction of that tap with no command. The corrective tap
  fails, and a second correction round, for the corrective tap, runs inside the first.
  And when the model answers every correction with a tap, each round starts another
  one: the call does not return, whatever the fuel.
\<close>

theorem nested_correction_counterexample:
  "map_option (\<lambda>(ok, s). (ok, trace s))
     (executeAndHandleSingleCommand (Suc (Suc 0)) retry_env ready_socket first_tap)
   = Some (False,
       [CommandStart first_tap, Transport (Tap (JNum 1) (JNum 2)),
        CommandOutcome first_tap False (Some ''device offline''),
        Capture, ErrorCorrectionStart,
        Inference (ErrorCorrectionPrompt first_tap ''device offline'' []),
        CommandStart corrective_tap, Transport (Tap (JNum 1) (JNum 2)),
        CommandOutcome corrective_tap False (Some ''device offline''),
        Capture, ErrorCorrectionStart,
        Inference (ErrorCorrectionPrompt corrective_tap ''device offline''
          [\<lparr>item_instruction = auto_correction, item_screenshot = Some (JNum 0),
            item_uiElements = Some (JNum 0),
            item_parsedResponse =
              \<lparr>thinking = JStr ''tap it'',
               commands = [[(''type'', JStr ''tap''), (''isTaskComplete'', JBool False)]],
               result = JUndefined, isTaskComplete = JUndefined, error = None\<rparr>\<rparr>]),
        ErrorCorrectionEnd (parseModelResponse reply_none),
        ErrorCorrectionEnd (parseModelResponse reply_one_tap)])
   \<and> (\<forall>fuel. executeAndHandleSingleCommand fuel stubborn_env ready_socket first_tap = None)"
proof -
  have "map_option (\<lambda>(ok, s). (ok, trace s))
     (executeAndHandleSingleCommand (Suc (Suc 0)) retry_env ready_socket first_tap)
   = Some (False,
       [CommandStart first_tap, Transport (Tap (JNum 1) (JNum 2)),
        CommandOutcome first_tap False (Some ''device offline''),
        Capture, ErrorCorrectionStart,
        Inference (ErrorCorrectionPrompt first_tap ''device offline'' []),
        CommandStart corrective_tap, Transport (Tap (JNum 1) (JNum 2)),
        CommandOutcome corrective_tap False (Some ''device offline''),
        Capture, ErrorCorrectionStart,
        Inference (ErrorCorrectionPrompt corrective_tap ''device offline''
          [\<lparr>item_instruction = auto_correction, item_screenshot = Some (JNum 0),
            item_uiElements = Some (JNum 0),
            item_parsedResponse =
              \<lparr>thinking = JStr ''tap it'',
               commands = [[(''type'', JStr ''tap''), (''isTaskComplete'', JBool False)]],
               result = JUndefined, isTaskComplete = JUndefined, error = None\<rparr>\<rparr>]),
        ErrorCorrectionEnd (parseModelResponse reply_none),
        ErrorCorrectionEnd (parseModelResponse reply_one_tap)])"
    by (simp add: executeAndHandleSingleCommand.simps handleErrorCorrection.simps
        executeCommand.simps call_transport_def getCurrentScreenState_def emit_def
        context_arg_def handleAIInstruction_def build_prompt_def deref_def
        updateSessionContext_def simplifiedResponse_def history_of_def slice_last_def
        MAX_CONTEXT_ITEMS_def stubborn_reply silent_reply exec_message_def
        retry_env_def ready_socket_def first_tap_def corrective_tap_def snap0_def get_def
        Let_def)
  moreover have "\<forall>fuel. executeAndHandleSingleCommand fuel stubborn_env ready_socket first_tap = None"
    by (simp add: never_recovers first_tap_def get_def)
  ultimately show ?thesis by simp
qed

lemma sequence_frame:
  "executeCommandSequence fuel e st cs instr = Some (r, st') \<Longrightarrow> frame st st'"
  and "continueTaskExecution fuel e st instr prev = Some (r, st') \<Longrightarrow> frame st st'"
proof (induction fuel e st cs instr and fuel e st instr prev arbitrary: r st' and r st'
    rule: executeCommandSequence_continueTaskExecution.induct)
  case (1 fuel e st instruction)
  then show ?case by (simp add: executeCommandSequence.simps frame_refl)
next
  case (2 fuel e st command rest instruction)
  from "2.prems" obtain ok st1 where one: "executeAndHandleSingleCommand fuel e st command = Some (ok, st1)"
    by (auto simp: executeCommandSequence.simps split: option.splits)
  have f1: "frame st st1" using single_command_shape(1) [OF one] by blast
  define mid where "mid = (if ok \<and> \<not> truthy (get command ''isTaskComplete'')
                 then continueTaskExecution fuel e st1 instruction command
                 else Some (Inr (), st1))"
  from "2.prems" one obtain x st2 where mid: "mid = Some (x, st2)"
    by (auto simp: executeCommandSequence.simps mid_def split: option.splits)
  have f2: "frame st1 st2"
  proof (cases "ok \<and> \<not> truthy (get command ''isTaskComplete'')")
    case True
    with mid have "continueTaskExecution fuel e st1 instruction command = Some (x, st2)"
      by (simp add: mid_def)
    then show ?thesis using "2.IH"(1) [OF one _ True] by simp
  next
    case False
    with mid show ?thesis by (auto simp: mid_def frame_refl)
  qed
  show ?case
  proof (cases x)
    case (Inl m)
    with "2.prems" one mid have "st' = st2"
      by (auto simp: executeCommandSequence.simps mid_def split: option.splits if_splits)
    with f1 f2 show ?thesis using frame_trans by blast
  next
    case (Inr u)
    show ?thesis
    proof (cases "\<not> ok \<or> truthy (get command ''isTaskComplete'')")
      case True
      with "2.prems" one mid Inr have "st' = st2"
        by (auto simp: executeCommandSequence.simps mid_def split: option.splits if_splits)
      with f1 f2 show ?thesis using frame_trans by blast
    next
      case False
      with "2.prems" one mid Inr have rest: "executeCommandSequence fuel e st2 rest instruction = Some (r, st')"
        by (auto simp: executeCommandSequence.simps mid_def split: option.splits if_splits)
      have "frame st2 st'"
        using "2.IH"(2) [OF one _ mid [unfolded mid_def] _ Inr False rest] by simp
      with f1 f2 show ?thesis using frame_trans by blast
    qed
  qed
next
  case (3 e st instruction previousCommand)
  then show ?case by (simp add: continueTaskExecution.simps)
next
  case (4 fuel e st instruction previousCommand)
  show ?case
  proof (cases "capture e (trace st)")
    case (Inl m)
    with "4.prems" have "st' = emit [Capture] st"
      by (simp add: continueTaskExecution.simps getCurrentScreenState_def)
    then show ?thesis by (simp add: frame_emit is_inference_def)
  next
    case (Inr snap)
    define st1 where "st1 = emit [Capture] st"
    define opts where "opts = \<lparr>o_instruction = Some instruction, o_snapshot = snap,
                   o_sessionContext = fst (context_arg st1),
                   o_isErrorCorrection = False, o_error = None,
                   o_isContinuation = True, o_previousCommand = Some previousCommand\<rparr>"
    obtain xb yb where hai: "handleAIInstruction e (snd (context_arg st1)) opts = (xb, yb)"
      by (cases "handleAIInstruction e (snd (context_arg st1)) opts")
    have f1: "frame st st1" by (simp add: st1_def frame_emit is_inference_def)
    have f2: "frame st1 yb" using frame_round [of opts st1 e] hai by (simp add: opts_def)
    show ?thesis
    proof (cases xb)
      case (Inl m)
      with "4.prems" Inr hai have "st' = yb"
        by (simp add: continueTaskExecution.simps getCurrentScreenState_def st1_def opts_def
            split: prod.splits)
      with f1 f2 show ?thesis using frame_trans by blast
    next
      case (Inr resp)
      define st4 where "st4 = (if truthy (result resp)
                           then emit [TaskResult instruction (result resp)] yb else yb)"
      have f3: "frame yb st4" by (simp add: st4_def frame_emit frame_refl is_inference_def)
      show ?thesis
      proof (cases "length (commands resp) > 0")
        case False
        with "4.prems" \<open>capture e (trace st) = Inr snap\<close> hai Inr have "st' = st4"
          by (auto simp: continueTaskExecution.simps getCurrentScreenState_def st1_def opts_def
              st4_def Let_def split: prod.splits)
        with f1 f2 f3 show ?thesis using frame_trans by blast
      next
        case True
        with "4.prems" \<open>capture e (trace st) = Inr snap\<close> hai Inr
        have seq: "executeCommandSequence fuel e (emit [InstructionResponse resp] st4)
                     (commands resp) instruction = Some (r, st')"
          by (auto simp: continueTaskExecution.simps getCurrentScreenState_def st1_def opts_def
              st4_def Let_def split: prod.splits)
        have "frame (emit [InstructionResponse resp] st4) st'"
        proof (rule "4.IH" [OF _ _ _ _ _ _ _ seq])
          show "(capture e (trace st), emit [Capture] st) = getCurrentScreenState e st"
            by (simp add: getCurrentScreenState_def)
          show "capture e (trace st) = Inr snap" by fact
          show "(fst (context_arg st1), snd (context_arg st1)) = context_arg (emit [Capture] st)"
            by (simp add: st1_def)
          show "(xb, yb) = handleAIInstruction e (snd (context_arg st1))
              \<lparr>o_instruction = Some instruction, o_snapshot = snap,
                 o_sessionContext = fst (context_arg st1), o_isErrorCorrection = False,
                 o_error = None, o_isContinuation = True,
                 o_previousCommand = Some previousCommand\<rparr>"
            using hai by (simp add: opts_def)
          show "xb = Inr resp" by fact
          show "st4 = (if truthy (result resp)
                  then emit [TaskResult instruction (result resp)] yb else yb)"
            by (simp add: st4_def)
          show "0 < length (commands resp)" by fact
        qed
        moreover have "frame st4 (emit [InstructionResponse resp] st4)"
          by (simp add: frame_emit is_inference_def)
        ultimately show ?thesis using f1 f2 f3 frame_trans by blast
      qed
    qed
  qed
qed





lemma quiet_env_facts:
  "\<forall>tr call. transport quiet_env tr call = None"
  "\<forall>tr. capture quiet_env tr = Inr snap0"
  "\<forall>tr p. callLLMAPI quiet_env tr p = Inr reply_none"
  "commands (parseModelResponse reply_none) = []"
  "thinking (parseModelResponse reply_none) = JStr ''done''"
  by (simp_all add: quiet_env_def reply_none_def parseModelResponse_def from_parsed_def
      clean_response_def get_def mark_last_def)




lemma instruction_prompt:
  "build_prompt \<lparr>o_instruction = Some i, o_snapshot = snap, o_sessionContext = a,
                 o_isErrorCorrection = False, o_error = None,
                 o_isContinuation = False, o_previousCommand = None\<rparr> i ctx
     = InstructionPrompt i (slice_last 3 (history_of ctx))"
  by (simp add: build_prompt_def)

lemma send_instruction_unfold:
  assumes cap: "capture e (trace st) = Inr snap"
  shows "send_instruction fuel e st i =
     (case handleAIInstruction e (snd (context_arg (emit [HandleInstructionStart] (emit [Capture] st))))
             \<lparr>o_instruction = Some i, o_snapshot = snap,
              o_sessionContext = fst (context_arg (emit [HandleInstructionStart] (emit [Capture] st))),
              o_isErrorCorrection = False, o_error = None,
              o_isContinuation = False, o_previousCommand = None\<rparr> of
        (Inl m, st3) \<Rightarrow> Some (emit [ErrorNotice InstructionHandler m] st3)
      | (Inr response, st3) \<Rightarrow>
          (if length (commands response) > 0
           then (case executeCommandSequence fuel e
                        (emit [InstructionResponse response] (rebuild_context e st3 i))
                        (commands response) i of
                   None \<Rightarrow> None
                 | Some (Inl m, st5) \<Rightarrow> Some (emit [ErrorNotice InstructionHandler m] st5)
                 | Some (Inr u, st5) \<Rightarrow> Some st5)
           else Some (emit [InstructionResponse response] (rebuild_context e st3 i))))"
  using cap
  by (simp add: send_instruction_def getCurrentScreenState_def case_prod_beta Let_def
      split: sum.splits)

lemma send_instruction_rest:
  assumes cap: "capture e (trace st) = Inr snap"
    and hai: "handleAIInstruction e (snd (context_arg (emit [HandleInstructionStart] (emit [Capture] st))))
             \<lparr>o_instruction = Some i, o_snapshot = snap,
              o_sessionContext = fst (context_arg (emit [HandleInstructionStart] (emit [Capture] st))),
              o_isErrorCorrection = False, o_error = None,
              o_isContinuation = False, o_previousCommand = None\<rparr> = (Inr response, st3)"
    and run: "send_instruction fuel e st i = Some st'"
  shows "frame (emit [InstructionResponse response] (rebuild_context e st3 i)) st'"
proof (cases "length (commands response) > 0")
  case False
  with run show ?thesis
    by (simp add: send_instruction_unfold [OF cap] hai frame_refl)
next
  case True
  define st4 where "st4 = emit [InstructionResponse response] (rebuild_context e st3 i)"
  from True run obtain y st5 where seq: "executeCommandSequence fuel e st4 (commands response) i = Some (y, st5)"
    and st': "st' = (case y of Inl m \<Rightarrow> emit [ErrorNotice InstructionHandler m] st5 | Inr u \<Rightarrow> st5)"
    by (auto simp: send_instruction_unfold [OF cap] hai st4_def split: option.splits sum.splits)
  have "frame st4 st5" using sequence_frame(1) [OF seq] .
  moreover have "frame st5 st'"
    by (cases y) (simp_all add: st' frame_refl frame_emit is_inference_def)
  ultimately show ?thesis unfolding st4_def using frame_trans by blast
qed

lemma send_instruction_prompt:
  assumes cap: "capture e (trace st) = Inr snap"
    and run: "send_instruction fuel e st i = Some st'"
  shows "\<exists>evs. trace st' = trace st @ [Capture, HandleInstructionStart,
            Inference (InstructionPrompt i (slice_last 3 (history_of (socket_context st))))] @ evs"
proof -
  define st1 where "st1 = emit [HandleInstructionStart] (emit [Capture] st)"
  define opts where "opts = \<lparr>o_instruction = Some i, o_snapshot = snap,
              o_sessionContext = fst (context_arg st1),
              o_isErrorCorrection = False, o_error = None,
              o_isContinuation = False, o_previousCommand = None\<rparr>"
  obtain x st3 where hai: "handleAIInstruction e (snd (context_arg st1)) opts = (x, st3)"
    by (cases "handleAIInstruction e (snd (context_arg st1)) opts")
  have sc: "socket_context st1 = socket_context st"
    by (simp add: socket_context_def st1_def emit_def split: option.splits)
  have t3: "trace st3 = trace st @ [Capture, HandleInstructionStart,
            Inference (InstructionPrompt i (slice_last 3 (history_of (socket_context st))))]"
    using handleAIInstruction_trace [of e "snd (context_arg st1)" opts] hai
    by (simp add: opts_def instruction_prompt context_arg_trace context_arg_deref sc)
       (simp add: st1_def emit_def)
  show ?thesis
  proof (cases x)
    case (Inl m)
    with run hai have "st' = emit [ErrorNotice InstructionHandler m] st3"
      by (simp add: send_instruction_unfold [OF cap] st1_def opts_def)
    then have "trace st' = trace st @ [Capture, HandleInstructionStart,
            Inference (InstructionPrompt i (slice_last 3 (history_of (socket_context st))))]
            @ [ErrorNotice InstructionHandler m]"
      by (simp add: emit_def t3)
    then show ?thesis by blast
  next
    case (Inr response)
    have "frame (emit [InstructionResponse response] (rebuild_context e st3 i)) st'"
      using send_instruction_rest [OF cap _ run] hai Inr by (simp add: st1_def opts_def)
    then obtain evs where "trace st' = trace (emit [InstructionResponse response] (rebuild_context e st3 i)) @ evs"
      unfolding frame_def by blast
    then have "trace st' = trace st @ [Capture, HandleInstructionStart,
            Inference (InstructionPrompt i (slice_last 3 (history_of (socket_context st))))]
            @ (InstructionResponse response # evs)"
      by (simp add: emit_def rebuild_context_def Let_def t3)
    then show ?thesis by blast
  qed
qed

lemma handleAIInstruction_heap:
  assumes "callLLMAPI e (trace st) (build_prompt opts (case o_instruction opts of None \<Rightarrow> [] | Some i \<Rightarrow> i)
        (deref (heap st) (o_sessionContext opts))) = Inr reply"
  shows "\<exists>now. heap (snd (handleAIInstruction e st opts)) =
     (heap st)[o_sessionContext opts :=
        snd (updateSessionContext (deref (heap st) (o_sessionContext opts))
               \<lparr>item_instruction =
                  (if (case o_instruction opts of None \<Rightarrow> [] | Some i \<Rightarrow> i) = []
                   then auto_correction
                   else (case o_instruction opts of None \<Rightarrow> [] | Some i \<Rightarrow> i)),
                item_screenshot = Some (screenshot_timestamp (o_snapshot opts)),
                item_uiElements = Some (ui_timestamp (o_snapshot opts)),
                item_parsedResponse = parseModelResponse reply\<rparr> now)]"
  using assms
  by (auto simp: handleAIInstruction_def Let_def emit_def case_prod_beta split: option.splits)

lemma update_empty_context:
  "thinking (item_parsedResponse it) = JStr s \<Longrightarrow>
   map item_instruction (history_of (snd (updateSessionContext empty_context it now)))
     = [item_instruction it]"
  by (simp add: updateSessionContext_def simplifiedResponse_def empty_context_def history_of_def
      MAX_CONTEXT_ITEMS_def Let_def)

text \<open>
  Claim C9, as the code has it. Let a socket have no session context, and let the
  capture and the model call of its first instruction succeed with a reply whose
  \<^verbatim>\<open>thinking\<close> is a string. The prompt of that instruction shows no history. If the
  reply holds no command, the handler returns after its reply to the client. Whenever
  the handler returns: the item of the round was appended to a temporary object (at
  the next free address of the store), which still holds it, alone; the socket's
  context is another, new object; the history of that object holds at most one item
  for each call of the model made after the rebuild, by a continuation or by an error
  correction; and the prompt of the next instruction shows the last three items of
  that history. So if no further model call was made while the instruction ran, the
  socket's context holds the empty history and the prompt of the next instruction
  shows no history.
\<close>

theorem first_round_item_not_retained:
  assumes new: "sessionContext st = None"
    and cap: "capture e (trace st) = Inr snap"
    and llm: "callLLMAPI e (trace st @ [Capture, HandleInstructionStart])
                (InstructionPrompt instruction []) = Inr reply"
    and str: "thinking (parseModelResponse reply) = JStr s"
  shows "(commands (parseModelResponse reply) = [] \<longrightarrow>
            (\<exists>st1. send_instruction fuel e st instruction = Some st1 \<and>
               trace st1 = trace st @ [Capture, HandleInstructionStart,
                    Inference (InstructionPrompt instruction []),
                    InstructionResponse (parseModelResponse reply)])) \<and>
         (send_instruction fuel e st instruction = Some st' \<longrightarrow>
            sessionContext st' = Some (Suc (length (heap st))) \<and>
            map item_instruction (history_of (deref (heap st') (length (heap st))))
              = [if instruction = [] then auto_correction else instruction] \<and>
            (\<exists>evs. trace st' = trace st @ [Capture, HandleInstructionStart,
                    Inference (InstructionPrompt instruction []),
                    InstructionResponse (parseModelResponse reply)] @ evs \<and>
               length (history_of (socket_context st')) \<le> length (filter is_inference evs) \<and>
               (filter is_inference evs = [] \<longrightarrow>
                  history (socket_context st') = Some [] \<and>
                  (\<forall>fuel2 instruction2 snap2 st''.
                      capture e (trace st') = Inr snap2 \<and>
                      send_instruction fuel2 e st' instruction2 = Some st'' \<longrightarrow>
                      (\<exists>evs2. trace st'' = trace st' @ [Capture, HandleInstructionStart,
                                 Inference (InstructionPrompt instruction2 [])] @ evs2)))) \<and>
            (\<forall>fuel2 instruction2 snap2 st''.
                capture e (trace st') = Inr snap2 \<and>
                send_instruction fuel2 e st' instruction2 = Some st'' \<longrightarrow>
                (\<exists>evs2. trace st'' = trace st' @ [Capture, HandleInstructionStart,
                           Inference (InstructionPrompt instruction2
                             (slice_last 3 (history_of (socket_context st'))))] @ evs2)))"
proof -
  define st1 where "st1 = emit [HandleInstructionStart] (emit [Capture] st)"
  define a where "a = length (heap st)"
  define st2 where "st2 = st1\<lparr>heap := heap st @ [empty_context]\<rparr>"
  have ca: "context_arg st1 = (a, st2)"
    using new by (simp add: context_arg_def st1_def st2_def a_def emit_def)
  define opts where "opts = \<lparr>o_instruction = Some instruction, o_snapshot = snap,
              o_sessionContext = a,
              o_isErrorCorrection = False, o_error = None,
              o_isContinuation = False, o_previousCommand = None\<rparr>"
  have d2: "deref (heap st2) a = empty_context"
    by (simp add: st2_def a_def deref_def)
  have t2: "trace st2 = trace st @ [Capture, HandleInstructionStart]"
    by (simp add: st2_def st1_def emit_def)
  have bp: "build_prompt opts (case o_instruction opts of None \<Rightarrow> [] | Some i \<Rightarrow> i)
              (deref (heap st2) (o_sessionContext opts)) = InstructionPrompt instruction []"
    by (simp add: opts_def instruction_prompt d2 history_of_def empty_context_def slice_last_def)
  obtain x st3 where hai: "handleAIInstruction e st2 opts = (x, st3)"
    by (cases "handleAIInstruction e st2 opts")
  have x: "x = Inr (parseModelResponse reply)"
    using handleAIInstruction_returns [of e st2 opts reply s] llm str hai by (simp add: bp t2)
  have t3: "trace st3 = trace st @ [Capture, HandleInstructionStart,
                    Inference (InstructionPrompt instruction [])]"
    using handleAIInstruction_trace [of e st2 opts] hai by (simp add: bp t2)
  have r3: "sessionContext st3 = None"
    using handleAIInstruction_ref [of e st2 opts] hai new by (simp add: st2_def st1_def emit_def)
  have h3: "length (heap st3) = Suc a \<and>
            map item_instruction (history_of (deref (heap st3) a))
              = [if instruction = [] then auto_correction else instruction]"
  proof -
    have la: "length (heap st2) = Suc a" by (simp add: st2_def a_def)
    have pre: "callLLMAPI e (trace st2)
        (build_prompt opts (case o_instruction opts of None \<Rightarrow> [] | Some i \<Rightarrow> i)
           (deref (heap st2) (o_sessionContext opts))) = Inr reply"
      using llm by (simp only: bp t2)
    from handleAIInstruction_heap [OF pre] obtain now where
      H: "heap (snd (handleAIInstruction e st2 opts)) =
     (heap st2)[o_sessionContext opts :=
        snd (updateSessionContext (deref (heap st2) (o_sessionContext opts))
               \<lparr>item_instruction =
                  (if (case o_instruction opts of None \<Rightarrow> [] | Some i \<Rightarrow> i) = []
                   then auto_correction
                   else (case o_instruction opts of None \<Rightarrow> [] | Some i \<Rightarrow> i)),
                item_screenshot = Some (screenshot_timestamp (o_snapshot opts)),
                item_uiElements = Some (ui_timestamp (o_snapshot opts)),
                item_parsedResponse = parseModelResponse reply\<rparr> now)]"
      by blast
    have "heap st3 = (heap st2)[a :=
        snd (updateSessionContext empty_context
               \<lparr>item_instruction = (if instruction = [] then auto_correction else instruction),
                item_screenshot = Some (screenshot_timestamp snap),
                item_uiElements = Some (ui_timestamp snap),
                item_parsedResponse = parseModelResponse reply\<rparr> now)]"
      using H hai d2 by (simp add: opts_def)
    then show ?thesis
      using update_empty_context [of _ s] str la by (simp add: deref_def)
  qed
  define st4 where "st4 = emit [InstructionResponse (parseModelResponse reply)]
                            (rebuild_context e st3 instruction)"
  have r4: "sessionContext st4 = Some (Suc a)"
    using h3 by (simp add: st4_def emit_def rebuild_context_def Let_def)
  have hp4: "heap st4 = heap st3 @ [\<lparr>history = Some [],
               lastOperation = Some (instruction, clock e (trace st3))\<rparr>]"
    using r3 by (simp add: st4_def emit_def rebuild_context_def Let_def history_of_def empty_context_def)
  have t4: "trace st4 = trace st3 @ [InstructionResponse (parseModelResponse reply)]"
    by (simp add: st4_def emit_def rebuild_context_def Let_def)
  have sc4: "history_of (socket_context st4) = []"
    using h3 by (simp add: socket_context_def r4 hp4 deref_def nth_append history_of_def)
  have total: "\<exists>st1. send_instruction fuel e st instruction = Some st1 \<and>
               trace st1 = trace st @ [Capture, HandleInstructionStart,
                    Inference (InstructionPrompt instruction []),
                    InstructionResponse (parseModelResponse reply)]"
    if "commands (parseModelResponse reply) = []"
  proof -
    have "send_instruction fuel e st instruction = Some st4"
      using that hai x ca
      by (simp add: send_instruction_unfold [OF cap] st1_def [symmetric] opts_def st4_def)
    moreover have "trace st4 = trace st @ [Capture, HandleInstructionStart,
                    Inference (InstructionPrompt instruction []),
                    InstructionResponse (parseModelResponse reply)]"
      by (simp add: t4 t3)
    ultimately show ?thesis by blast
  qed
  have part: "sessionContext st' = Some (Suc (length (heap st))) \<and>
            map item_instruction (history_of (deref (heap st') (length (heap st))))
              = [if instruction = [] then auto_correction else instruction] \<and>
            (\<exists>evs. trace st' = trace st @ [Capture, HandleInstructionStart,
                    Inference (InstructionPrompt instruction []),
                    InstructionResponse (parseModelResponse reply)] @ evs \<and>
               length (history_of (socket_context st')) \<le> length (filter is_inference evs) \<and>
               (filter is_inference evs = [] \<longrightarrow>
                  history (socket_context st') = Some [] \<and>
                  (\<forall>fuel2 instruction2 snap2 st''.
                      capture e (trace st') = Inr snap2 \<and>
                      send_instruction fuel2 e st' instruction2 = Some st'' \<longrightarrow>
                      (\<exists>evs2. trace st'' = trace st' @ [Capture, HandleInstructionStart,
                                 Inference (InstructionPrompt instruction2 [])] @ evs2)))) \<and>
            (\<forall>fuel2 instruction2 snap2 st''.
                capture e (trace st') = Inr snap2 \<and>
                send_instruction fuel2 e st' instruction2 = Some st'' \<longrightarrow>
                (\<exists>evs2. trace st'' = trace st' @ [Capture, HandleInstructionStart,
                           Inference (InstructionPrompt instruction2
                             (slice_last 3 (history_of (socket_context st'))))] @ evs2))"
    if run: "send_instruction fuel e st instruction = Some st'"
  proof -
    have fr: "frame st4 st'"
      using send_instruction_rest [OF cap _ run, of "parseModelResponse reply" st3] hai x ca
      by (simp add: st1_def [symmetric] opts_def st4_def)
    then obtain evs where ref': "sessionContext st' = sessionContext st4"
      and len: "length (heap st4) \<le> length (heap st')"
      and keep: "\<forall>i < length (heap st4). sessionContext st4 \<noteq> Some i \<longrightarrow> heap st' ! i = heap st4 ! i"
      and evs: "trace st' = trace st4 @ evs" "filter is_inference evs = [] \<longrightarrow> heap st' = heap st4"
      and grow: "length (history_of (socket_context st'))
                   \<le> length (history_of (socket_context st4)) + length (filter is_inference evs)"
      unfolding frame_def by blast
    have part1: "sessionContext st' = Some (Suc (length (heap st)))"
      using ref' r4 by (simp add: a_def)
    have l4: "length (heap st4) = Suc (Suc a)" using h3 by (simp add: hp4)
    have "heap st' ! a = heap st4 ! a" using keep l4 r4 by simp
    also have "\<dots> = heap st3 ! a" using h3 by (simp add: hp4 nth_append)
    finally have tmp: "deref (heap st') (length (heap st)) = deref (heap st3) a"
      using len l4 h3 by (simp add: deref_def a_def)
    have part2: "map item_instruction (history_of (deref (heap st') (length (heap st))))
              = [if instruction = [] then auto_correction else instruction]"
      using h3 by (simp add: tmp)
    have tr': "trace st' = trace st @ [Capture, HandleInstructionStart,
                    Inference (InstructionPrompt instruction []),
                    InstructionResponse (parseModelResponse reply)] @ evs"
      by (simp add: evs(1) t4 t3)
    have bound: "length (history_of (socket_context st')) \<le> length (filter is_inference evs)"
      using grow by (simp add: sc4)
    have nxt: "\<exists>evs2. trace st'' = trace st' @ [Capture, HandleInstructionStart,
                           Inference (InstructionPrompt instruction2
                             (slice_last 3 (history_of (socket_context st'))))] @ evs2"
      if "capture e (trace st') = Inr snap2 \<and> send_instruction fuel2 e st' instruction2 = Some st''"
      for fuel2 instruction2 snap2 st''
      using send_instruction_prompt [of e st' snap2 fuel2 instruction2 st''] that by simp
    have quiet: "history (socket_context st') = Some [] \<and>
                  (\<forall>fuel2 instruction2 snap2 st''.
                      capture e (trace st') = Inr snap2 \<and>
                      send_instruction fuel2 e st' instruction2 = Some st'' \<longrightarrow>
                      (\<exists>evs2. trace st'' = trace st' @ [Capture, HandleInstructionStart,
                                 Inference (InstructionPrompt instruction2 [])] @ evs2))"
      if none: "filter is_inference evs = []"
    proof -
      have hp: "heap st' = heap st3 @ [\<lparr>history = Some [],
               lastOperation = Some (instruction, clock e (trace st3))\<rparr>]"
        using none evs(2) hp4 by simp
      have sc: "socket_context st' = \<lparr>history = Some [],
               lastOperation = Some (instruction, clock e (trace st3))\<rparr>"
        using h3 by (simp add: socket_context_def part1 hp deref_def a_def nth_append)
      have "\<exists>evs2. trace st'' = trace st' @ [Capture, HandleInstructionStart,
                                 Inference (InstructionPrompt instruction2 [])] @ evs2"
        if "capture e (trace st') = Inr snap2 \<and> send_instruction fuel2 e st' instruction2 = Some st''"
        for fuel2 instruction2 snap2 st''
        using nxt [OF that] by (simp add: sc history_of_def slice_last_def)
      then show ?thesis using sc by auto
    qed
    have third: "\<exists>evs. trace st' = trace st @ [Capture, HandleInstructionStart,
                    Inference (InstructionPrompt instruction []),
                    InstructionResponse (parseModelResponse reply)] @ evs \<and>
               length (history_of (socket_context st')) \<le> length (filter is_inference evs) \<and>
               (filter is_inference evs = [] \<longrightarrow>
                  history (socket_context st') = Some [] \<and>
                  (\<forall>fuel2 instruction2 snap2 st''.
                      capture e (trace st') = Inr snap2 \<and>
                      send_instruction fuel2 e st' instruction2 = Some st'' \<longrightarrow>
                      (\<exists>evs2. trace st'' = trace st' @ [Capture, HandleInstructionStart,
                                 Inference (InstructionPrompt instruction2 [])] @ evs2)))"
      by (rule exI [of _ evs], rule conjI [OF tr'], rule conjI [OF bound], rule impI, rule quiet)
    have fourth: "\<forall>fuel2 instruction2 snap2 st''.
                capture e (trace st') = Inr snap2 \<and>
                send_instruction fuel2 e st' instruction2 = Some st'' \<longrightarrow>
                (\<exists>evs2. trace st'' = trace st' @ [Capture, HandleInstructionStart,
                           Inference (InstructionPrompt instruction2
                             (slice_last 3 (history_of (socket_context st'))))] @ evs2)"
      using nxt by blast
    show ?thesis
      by (rule conjI [OF part1], rule conjI [OF part2], rule conjI [OF third], rule fourth)
  qed
  show ?thesis
  proof (rule conjI)
    show "commands (parseModelResponse reply) = [] \<longrightarrow>
            (\<exists>st1. send_instruction fuel e st instruction = Some st1 \<and>
               trace st1 = trace st @ [Capture, HandleInstructionStart,
                    Inference (InstructionPrompt instruction []),
                    InstructionResponse (parseModelResponse reply)])"
      by (rule impI) (rule total)
  next
    show "send_instruction fuel e st instruction = Some st' \<longrightarrow>
            sessionContext st' = Some (Suc (length (heap st))) \<and>
            map item_instruction (history_of (deref (heap st') (length (heap st))))
              = [if instruction = [] then auto_correction else instruction] \<and>
            (\<exists>evs. trace st' = trace st @ [Capture, HandleInstructionStart,
                    Inference (InstructionPrompt instruction []),
                    InstructionResponse (parseModelResponse reply)] @ evs \<and>
               length (history_of (socket_context st')) \<le> length (filter is_inference evs) \<and>
               (filter is_inference evs = [] \<longrightarrow>
                  history (socket_context st') = Some [] \<and>
                  (\<forall>fuel2 instruction2 snap2 st''.
                      capture e (trace st') = Inr snap2 \<and>
                      send_instruction fuel2 e st' instruction2 = Some st'' \<longrightarrow>
                      (\<exists>evs2. trace st'' = trace st' @ [Capture, HandleInstructionStart,
                                 Inference (InstructionPrompt instruction2 [])] @ evs2)))) \<and>
            (\<forall>fuel2 instruction2 snap2 st''.
                capture e (trace st') = Inr snap2 \<and>
                send_instruction fuel2 e st' instruction2 = Some st'' \<longrightarrow>
                (\<exists>evs2. trace st'' = trace st' @ [Capture, HandleInstructionStart,
                           Inference (InstructionPrompt instruction2
                             (slice_last 3 (history_of (socket_context st'))))] @ evs2))"
      by (rule impI) (rule part)
  qed
qed

text \<open>
  The claim at a new socket and a model that answers with no command: the handler
  returns, the item of the first round is in the temporary object at address 0, the
  socket's context is the object at address 1 and its history is empty, and the prompt
  of a second instruction shows no history.
\<close>

theorem first_round_item_not_retained_witness:
  "\<exists>st'. send_instruction 1 quiet_env new_socket ''first'' = Some st' \<and>
         trace st' = [Capture, HandleInstructionStart, Inference (InstructionPrompt ''first'' []),
                      InstructionResponse (parseModelResponse reply_none)] \<and>
         sessionContext st' = Some 1 \<and>
         history (socket_context st') = Some [] \<and>
         map item_instruction (history_of (deref (heap st') 0)) = [''first''] \<and>
         (\<exists>st''. send_instruction 1 quiet_env st' ''second'' = Some st'' \<and>
            prompt_histories (trace st'') = [(''first'', []), (''second'', [])])"
proof -
  have new: "sessionContext new_socket = None" by (simp add: new_socket_def)
  have cap: "capture quiet_env (trace new_socket) = Inr snap0" by (simp add: quiet_env_def)
  have llm: "callLLMAPI quiet_env (trace new_socket @ [Capture, HandleInstructionStart])
               (InstructionPrompt ''first'' []) = Inr reply_none"
    by (simp add: quiet_env_def)
  note T = first_round_item_not_retained [OF new cap llm quiet_env_facts(5)]
  obtain st' where run: "send_instruction 1 quiet_env new_socket ''first'' = Some st'"
    and t: "trace st' = trace new_socket @ [Capture, HandleInstructionStart,
              Inference (InstructionPrompt ''first'' []),
              InstructionResponse (parseModelResponse reply_none)]"
    using T [of 1, THEN conjunct1] quiet_env_facts(4) by blast
  note P = T [of 1 st', THEN conjunct2, rule_format, OF run]
  have r: "sessionContext st' = Some (Suc (length (heap new_socket)))"
    using P by (rule conjunct1)
  have tmp: "map item_instruction (history_of (deref (heap st') (length (heap new_socket))))
              = [if ''first'' = [] then auto_correction else ''first'']"
    using P [THEN conjunct2] by (rule conjunct1)
  obtain evs where e: "trace st' = trace new_socket @ [Capture, HandleInstructionStart,
                    Inference (InstructionPrompt ''first'' []),
                    InstructionResponse (parseModelResponse reply_none)] @ evs"
    and h: "filter is_inference evs = [] \<longrightarrow> history (socket_context st') = Some []"
    using P [THEN conjunct2, THEN conjunct2, THEN conjunct1] by blast
  from e t have "evs = []" by simp
  with h have hist: "history (socket_context st') = Some []" by simp
  have sc: "socket_context st' = deref (heap st') 1"
    using r by (simp add: socket_context_def new_socket_def)
  have st'2: "\<exists>st''. send_instruction 1 quiet_env st' ''second'' = Some st'' \<and>
            prompt_histories (trace st'') = [(''first'', []), (''second'', [])]"
    using hist r t sc
    by (cases st')
       (simp add: send_instruction_def getCurrentScreenState_def emit_def context_arg_def
        handleAIInstruction_def build_prompt_def deref_def updateSessionContext_def
        simplifiedResponse_def history_of_def slice_last_def MAX_CONTEXT_ITEMS_def
        parseModelResponse_def from_parsed_def clean_response_def mark_last_def get_def
        rebuild_context_def quiet_env_def new_socket_def reply_none_def snap0_def
        empty_context_def Let_def prompt_histories_def List.map_filter_def
        split: if_splits)
  show ?thesis
    using run t r hist tmp st'2 by (intro exI [of _ st']) (simp add: new_socket_def)
qed

text \<open>
  Claim C9 as stated fails in its last part: when the reply to the first instruction
  holds a command that does not complete the task, a continuation round runs after
  the handler has set the socket's context, and its item is kept there; the prompt of
  the next instruction then shows a history of one item, not an empty one.
\<close>

theorem later_rounds_reach_next_prompt_counterexample:
  "map_option (\<lambda>s. prompt_histories (trace s))
     (case send_instruction 1 tapping_env new_socket ''first'' of
        None \<Rightarrow> None
      | Some s1 \<Rightarrow> send_instruction 1 tapping_env s1 ''second'')
   = Some [(''first'', []), (''second'', [''first''])]"
  by (simp add: send_instruction_def getCurrentScreenState_def emit_def context_arg_def
      handleAIInstruction_def build_prompt_def deref_def updateSessionContext_def
      simplifiedResponse_def history_of_def slice_last_def MAX_CONTEXT_ITEMS_def
      parseModelResponse_def from_parsed_def clean_response_def normalizeCommand_def
      repair_action_def repair_tap_def repair_swipe_def default_flags_def mark_last_def
      get_def put_def del_def is_pair_def executeCommandSequence.simps
      continueTaskExecution.simps executeAndHandleSingleCommand.simps executeCommand.simps
      call_transport_def rebuild_context_def tapping_env_def new_socket_def reply_one_tap_def
      reply_none_def snap0_def empty_context_def Let_def prompt_histories_def
      List.map_filter_def)

end
